theory Spec2Isabelle
  imports Complex_Main "HOL-Library.AList"
begin

section \<open>Exceptions and Python values\<close>

text \<open>
  Every exception the modelled code can raise is a value of \<open>error\<close>; a call returns
  \<open>error + 'a\<close> with \<open>Inl\<close> for the raise.  \<open>InvalidStatechartError\<close> carries its
  message, \<open>KeyError\<close> the missing key (\<open>None\<close> for Python's \<open>None\<close>), \<open>AttributeError\<close> the
  attribute that the object lacks.  \<open>DuplicateNameError\<close> is the class named by the error
  taxonomy of the specification; no statement of \<open>model.py\<close> or \<open>testing.py\<close> raises it.
\<close>

datatype error =
    TypeError
  | KeyError "string option"
  | AttributeError string
  | InvalidStatechartError string
  | DuplicateNameError

text \<open>
  Python's truth test on an optional string (\<open>if x:\<close>, \<open>while x:\<close>, \<open>not x\<close>): \<open>None\<close> and the
  empty string are false, every other string is true.
\<close>

fun truthy :: "string option \<Rightarrow> bool" where
  "truthy None = False"
| "truthy (Some s) = (s \<noteq> [])"

section \<open>Events\<close>

text \<open>
  \<open>class Event\<close> and its subclass \<open>InternalEvent\<close>: a name and the keyword arguments of the
  constructor as \<open>data\<close>.  The values stored in \<open>data\<close> are arbitrary Python objects; the ones
  that \<open>story_from_trace\<close> builds are \<open>None\<close>, strings, events and dict literals.
\<close>

datatype event =
    Event string "(string \<times> pyval) list"
  | InternalEvent string "(string \<times> pyval) list"
and pyval =
    PyNone
  | PyStr string
  | PyEvent event
  | PyDict "(string \<times> pyval) list"

text \<open>
  The call \<open>Event(name, *args, **kwargs)\<close>.  The signature is
  \<open>__init__(self, name: str, **additional_parameters)\<close>: it accepts exactly one positional
  argument after \<open>self\<close>, so any further positional argument makes Python raise \<open>TypeError\<close>
  before the body runs, and so does a keyword argument called \<open>name\<close> or \<open>self\<close> (a second
  value for a parameter); otherwise \<open>self.name = name\<close> and
  \<open>self.data = additional_parameters\<close>.
\<close>

definition Event_init :: "string \<Rightarrow> pyval list \<Rightarrow> (string \<times> pyval) list \<Rightarrow> error + event" where
  "Event_init name args kwargs =
     (if args = [] then
        (if map_of kwargs ''name'' = None \<and> map_of kwargs ''self'' = None
         then Inr (Event name kwargs) else Inl TypeError)
      else Inl TypeError)"

section \<open>Contracts and transitions\<close>

record contract =
  preconditions :: "string list"
  postconditions :: "string list"
  invariants :: "string list"

definition ContractMixin_init :: contract where
  "ContractMixin_init = \<lparr>preconditions = [], postconditions = [], invariants = []\<rparr>"

text \<open>\<open>class Transition(ContractMixin)\<close>: the contract fields and the five fields of its own.\<close>

record transition = contract +
  from_state :: string
  to_state :: "string option"
  event :: "string option"
  guard :: "string option"
  action :: "string option"

definition Transition :: "string \<Rightarrow> string option \<Rightarrow> string option \<Rightarrow> string option \<Rightarrow> string option \<Rightarrow> transition" where
  "Transition f t e g a =
     \<lparr>preconditions = [], postconditions = [], invariants = [],
      from_state = f, to_state = t, event = e, guard = g, action = a\<rparr>"

section \<open>Step traces\<close>

text \<open>
  \<open>class MicroStep\<close> after its constructor has run: \<open>self.transition\<close> is the transition or
  the empty list (both \<open>None\<close> and \<open>[]\<close> are false in the truth test that reads it, so \<open>None\<close>
  stands for the empty list here); the two state lists default to the empty list.  An
  \<open>Event\<close> defines neither \<open>__bool__\<close> nor \<open>__len__\<close>, so every event object is true.
\<close>

record microstep =
  ms_event :: "event option"
  ms_transition :: "transition option"
  entered_states :: "string list"
  exited_states :: "string list"

definition MicroStep :: "event option \<Rightarrow> transition option \<Rightarrow> string list option \<Rightarrow> string list option \<Rightarrow> microstep" where
  "MicroStep ev tr entered exited =
     \<lparr>ms_event = ev, ms_transition = tr,
      entered_states = (case entered of None \<Rightarrow> [] | Some xs \<Rightarrow> xs),
      exited_states = (case exited of None \<Rightarrow> [] | Some xs \<Rightarrow> xs)\<rparr>"

record macrostep =
  time :: real
  steps :: "microstep list"

definition MacroStep :: "real \<Rightarrow> microstep list \<Rightarrow> macrostep" where
  "MacroStep t ss = \<lparr>time = t, steps = ss\<rparr>"

text \<open>The property \<open>MacroStep.event\<close>: the event of the first step that has one.\<close>

fun first_event :: "microstep list \<Rightarrow> event option" where
  "first_event [] = None"
| "first_event (s # ss) = (case ms_event s of Some e \<Rightarrow> Some e | None \<Rightarrow> first_event ss)"

definition macrostep_event :: "macrostep \<Rightarrow> event option" where
  "macrostep_event m = first_event (steps m)"

section \<open>Story reconstruction\<close>

text \<open>
  Modelled from the spec: \<open>Story\<close> and \<open>Pause\<close> come from \<open>sismic.stories\<close>, which is not part
  of the sources at hand.  A story is the sequence of its items in the order of the
  \<open>append\<close> calls; an item is an event or a pause carrying a duration.
\<close>

datatype story_item = StoryEvent event | Pause real

type_synonym story = "story_item list"

fun pyval_of_event :: "event option \<Rightarrow> pyval" where
  "pyval_of_event None = PyNone"
| "pyval_of_event (Some e) = PyEvent e"

fun pyval_of_name :: "string option \<Rightarrow> pyval" where
  "pyval_of_name None = PyNone"
| "pyval_of_name (Some s) = PyStr s"

text \<open>
  \<open>for state in states: story.append(Event(kind, {'state': state}))\<close>, with \<open>kind\<close> one of
  \<open>'exited'\<close> and \<open>'entered'\<close>.  The dict literal is passed positionally, as the source writes it.
\<close>

fun append_state_events :: "string \<Rightarrow> string list \<Rightarrow> story \<Rightarrow> error + story" where
  "append_state_events kind [] story = Inr story"
| "append_state_events kind (s # ss) story =
     (case Event_init kind [PyDict [(''state'', PyStr s)]] [] of
        Inl e \<Rightarrow> Inl e
      | Inr ev \<Rightarrow> append_state_events kind ss (story @ [StoryEvent ev]))"

text \<open>The body of \<open>for microstep in macrostep.steps\<close> for one microstep.\<close>

definition append_microstep :: "event option \<Rightarrow> microstep \<Rightarrow> story \<Rightarrow> error + story" where
  "append_microstep mev ms story =
     (case append_state_events ''exited'' (exited_states ms) story of
        Inl e \<Rightarrow> Inl e
      | Inr story1 \<Rightarrow>
          (case (case ms_transition ms of
                   None \<Rightarrow> Inr story1
                 | Some tr \<Rightarrow>
                     (case Event_init ''processed''
                             [PyDict [(''source'', PyStr (from_state tr)),
                                      (''target'', pyval_of_name (to_state tr)),
                                      (''event'', pyval_of_event mev)]] [] of
                        Inl e \<Rightarrow> Inl e
                      | Inr ev \<Rightarrow> Inr (story1 @ [StoryEvent ev]))) of
             Inl e \<Rightarrow> Inl e
           | Inr story2 \<Rightarrow> append_state_events ''entered'' (entered_states ms) story2))"

fun append_microsteps :: "event option \<Rightarrow> microstep list \<Rightarrow> story \<Rightarrow> error + story" where
  "append_microsteps mev [] story = Inr story"
| "append_microsteps mev (ms # mss) story =
     (case append_microstep mev ms story of
        Inl e \<Rightarrow> Inl e
      | Inr story' \<Rightarrow> append_microsteps mev mss story')"

text \<open>
  The loop \<open>for macrostep in trace\<close>, threading the local variables \<open>story\<close> and \<open>time\<close>
  (named \<open>clock\<close> here, since \<open>time\<close> is the field of the macro step).
  Times are exact numbers here; where the code subtracts two Python floats the
  duration it stores in the \<open>Pause\<close> is the rounded difference.
\<close>

fun append_macrosteps :: "macrostep list \<Rightarrow> real \<Rightarrow> story \<Rightarrow> error + story" where
  "append_macrosteps [] clock story = Inr story"
| "append_macrosteps (m # ms) clock story =
     (let (story1, clock1) =
            (if time m > clock then (story @ [Pause (time m - clock)], time m)
             else (story, clock))
      in case (case macrostep_event m of
                 None \<Rightarrow> Inr story1
               | Some ev \<Rightarrow>
                   (case Event_init ''consumed'' [PyDict [(''event'', PyEvent ev)]] [] of
                      Inl e \<Rightarrow> Inl e
                    | Inr c \<Rightarrow> Inr (story1 @ [StoryEvent c]))) of
           Inl e \<Rightarrow> Inl e
         | Inr story2 \<Rightarrow>
             (case append_microsteps (macrostep_event m) (steps m) story2 of
                Inl e \<Rightarrow> Inl e
              | Inr story3 \<Rightarrow> append_macrosteps ms clock1 story3))"

definition story_from_trace :: "macrostep list \<Rightarrow> error + story" where
  "story_from_trace trace =
     (case Event_init ''started'' [] [] of
        Inl e \<Rightarrow> Inl e
      | Inr started \<Rightarrow>
          (case append_macrosteps trace 0 [StoryEvent started] of
             Inl e \<Rightarrow> Inl e
           | Inr story \<Rightarrow>
               (case Event_init ''stopped'' [] [] of
                  Inl e \<Rightarrow> Inl e
                | Inr stopped \<Rightarrow> Inr (story @ [StoryEvent stopped]))))"

section \<open>The state hierarchy\<close>

text \<open>\<open>ActionStateMixin\<close>: the code to run on entry and on exit, both optional.\<close>

record actions =
  on_entry :: "string option"
  on_exit :: "string option"

text \<open>
  The five state classes.  Each constructor carries the attributes its mixins create, in
  the order of the class's bases: the name (\<open>StateMixin\<close>), the contract, the list of
  outgoing transitions (\<open>TransitionStateMixin\<close>), the actions, the list of children
  (\<open>CompositeStateMixin\<close>), then the class's own attributes (\<open>initial\<close>, \<open>deep\<close>).
\<close>

datatype state =
    BasicState string contract "transition list" actions
  | CompoundState string contract "transition list" actions "string list" "string option"
  | OrthogonalState string contract "transition list" actions "string list"
  | HistoryState string contract "string option" bool
  | FinalState string contract actions

text \<open>The constructors \<open>__init__\<close> of the five classes: every list starts empty.\<close>

definition BasicState_init :: "string \<Rightarrow> string option \<Rightarrow> string option \<Rightarrow> state" where
  "BasicState_init n en ex = BasicState n ContractMixin_init [] \<lparr>on_entry = en, on_exit = ex\<rparr>"

definition CompoundState_init :: "string \<Rightarrow> string option \<Rightarrow> string option \<Rightarrow> string option \<Rightarrow> state" where
  "CompoundState_init n ini en ex =
     CompoundState n ContractMixin_init [] \<lparr>on_entry = en, on_exit = ex\<rparr> [] ini"

definition OrthogonalState_init :: "string \<Rightarrow> string option \<Rightarrow> string option \<Rightarrow> state" where
  "OrthogonalState_init n en ex =
     OrthogonalState n ContractMixin_init [] \<lparr>on_entry = en, on_exit = ex\<rparr> []"

definition HistoryState_init :: "string \<Rightarrow> string option \<Rightarrow> bool \<Rightarrow> state" where
  "HistoryState_init n ini dp = HistoryState n ContractMixin_init ini dp"

definition FinalState_init :: "string \<Rightarrow> string option \<Rightarrow> string option \<Rightarrow> state" where
  "FinalState_init n en ex = FinalState n ContractMixin_init \<lparr>on_entry = en, on_exit = ex\<rparr>"

fun state_name :: "state \<Rightarrow> string" where
  "state_name (BasicState n _ _ _) = n"
| "state_name (CompoundState n _ _ _ _ _) = n"
| "state_name (OrthogonalState n _ _ _ _) = n"
| "state_name (HistoryState n _ _ _) = n"
| "state_name (FinalState n _ _) = n"

text \<open>The contract every state has, and the entry and exit actions of those that have them.\<close>

fun state_contract :: "state \<Rightarrow> contract" where
  "state_contract (BasicState _ k _ _) = k"
| "state_contract (CompoundState _ k _ _ _ _) = k"
| "state_contract (OrthogonalState _ k _ _ _) = k"
| "state_contract (HistoryState _ k _ _) = k"
| "state_contract (FinalState _ k _) = k"

fun state_actions :: "state \<Rightarrow> actions option" where
  "state_actions (BasicState _ _ _ a) = Some a"
| "state_actions (CompoundState _ _ _ a _ _) = Some a"
| "state_actions (OrthogonalState _ _ _ a _) = Some a"
| "state_actions (HistoryState _ _ _ _) = None"
| "state_actions (FinalState _ _ a) = Some a"

text \<open>
  The attribute \<open>children\<close>: only the classes with \<open>CompositeStateMixin\<close> have it; \<open>None\<close>
  stands for the \<open>AttributeError\<close> that reading it on another class raises.
\<close>

fun children :: "state \<Rightarrow> string list option" where
  "children (CompoundState _ _ _ _ cs _) = Some cs"
| "children (OrthogonalState _ _ _ _ cs) = Some cs"
| "children _ = None"

text \<open>\<open>state.children.append(child)\<close> on a state that has the list.\<close>

fun append_child :: "string \<Rightarrow> state \<Rightarrow> state" where
  "append_child ch (CompoundState n k ts a cs ini) = CompoundState n k ts a (cs @ [ch]) ini"
| "append_child ch (OrthogonalState n k ts a cs) = OrthogonalState n k ts a (cs @ [ch])"
| "append_child ch s = s"

text \<open>The attribute \<open>transitions\<close>: only the classes with \<open>TransitionStateMixin\<close> have it.\<close>

fun state_transitions :: "state \<Rightarrow> transition list option" where
  "state_transitions (BasicState _ _ ts _) = Some ts"
| "state_transitions (CompoundState _ _ ts _ _ _) = Some ts"
| "state_transitions (OrthogonalState _ _ ts _ _) = Some ts"
| "state_transitions _ = None"

fun append_transition :: "transition \<Rightarrow> state \<Rightarrow> state" where
  "append_transition t (BasicState n k ts a) = BasicState n k (ts @ [t]) a"
| "append_transition t (CompoundState n k ts a cs ini) = CompoundState n k (ts @ [t]) a cs ini"
| "append_transition t (OrthogonalState n k ts a cs) = OrthogonalState n k (ts @ [t]) a cs"
| "append_transition t s = s"

section \<open>The StateChart container\<close>

text \<open>
  \<open>class StateChart\<close>.  The dicts \<open>_states\<close> and \<open>_parent\<close> are association lists in
  insertion order (the order \<open>validate\<close> iterates in); \<open>d[k] = v\<close> is \<open>AList.update\<close>, which
  overwrites the value of a present key in place and appends an absent key at the end, and
  \<open>d[k]\<close> is \<open>map_of\<close>, with \<open>None\<close> for the \<open>KeyError\<close>.  A value of \<open>_parent\<close> is a state
  name or Python's \<open>None\<close>.  The dict holds the state objects themselves; a state object is
  reachable under one key only, so the in-place \<open>append\<close> on a state's list is the update of
  the value stored under its key.  \<open>root\<close> is the property of that name, \<open>self._root.name\<close>.
\<close>

record statechart =
  chart_name :: string
  description :: "string option"
  bootstrap :: "string option"
  states :: "(string \<times> state) list"
  parent :: "(string \<times> string option) list"
  transitions :: "transition list"
  root :: string

definition StateChart_init :: "string \<Rightarrow> state \<Rightarrow> string option \<Rightarrow> string option \<Rightarrow> statechart" where
  "StateChart_init nm r descr boot =
     \<lparr>chart_name = nm, description = descr, bootstrap = boot,
      states = [(state_name r, r)], parent = [(state_name r, None)],
      transitions = [], root = state_name r\<rparr>"

text \<open>\<open>name in self._states\<close>.\<close>

definition registered :: "statechart \<Rightarrow> string \<Rightarrow> bool" where
  "registered c n = (map_of (states c) n \<noteq> None)"

text \<open>
  The argument \<open>parent\<close> of \<open>register_state\<close>: a state object, whose name is taken, or any
  other value, taken as it is: a name or \<open>None\<close>.
\<close>

datatype parent_arg = ParentState state | ParentName string | ParentNone

fun parent_name :: "parent_arg \<Rightarrow> string option" where
  "parent_name (ParentState p) = Some (state_name p)"
| "parent_name (ParentName n) = Some n"
| "parent_name ParentNone = None"

text \<open>
  \<open>register_state\<close> returns what the call raised, if anything, and the chart as the call
  leaves it: the statements before a raise have taken effect.
\<close>

definition register_state :: "statechart \<Rightarrow> state \<Rightarrow> parent_arg \<Rightarrow> (error + unit) \<times> statechart" where
  "register_state c st par =
     (if map_of (states c) (state_name st) \<noteq> None then
        (Inl (InvalidStatechartError (''State name '' @ state_name st @ '' is already used!'')), c)
      else
        let c1 = c\<lparr>states := AList.update (state_name st) st (states c),
                   parent := AList.update (state_name st) (parent_name par) (parent c)\<rparr>
        in case map_of (parent c1) (state_name st) of
             None \<Rightarrow> (Inl (KeyError (Some (state_name st))), c1)
           | Some None \<Rightarrow> (Inl (KeyError None), c1)
           | Some (Some pn) \<Rightarrow>
               (case map_of (states c1) pn of
                  None \<Rightarrow> (Inl (KeyError (Some pn)), c1)
                | Some ps \<Rightarrow>
                    (case children ps of
                       None \<Rightarrow> (Inl (AttributeError ''children''), c1)
                     | Some _ \<Rightarrow>
                         (Inr (), c1\<lparr>states := AList.update pn (append_child (state_name st) ps)
                                                (states c1)\<rparr>))))"

definition register_transition :: "statechart \<Rightarrow> transition \<Rightarrow> (error + unit) \<times> statechart" where
  "register_transition c t =
     (let c1 = c\<lparr>transitions := transitions c @ [t]\<rparr>
      in case map_of (states c1) (from_state t) of
           None \<Rightarrow> (Inl (KeyError (Some (from_state t))), c1)
         | Some s \<Rightarrow>
             (case state_transitions s of
                None \<Rightarrow> (Inl (AttributeError ''transitions''), c1)
              | Some _ \<Rightarrow>
                  (Inr (), c1\<lparr>states := AList.update (from_state t) (append_transition t s)
                                         (states c1)\<rparr>)))"

text \<open>
  A builder's calls, run in order; the first call that raises ends the run.  The chart
  \<open>c\<close> is built when \<open>build (StateChart_init nm r descr boot) calls = Inr c\<close>.
\<close>

datatype registration = RegisterState state parent_arg | RegisterTransition transition

fun register :: "statechart \<Rightarrow> registration \<Rightarrow> (error + unit) \<times> statechart" where
  "register c (RegisterState st par) = register_state c st par"
| "register c (RegisterTransition t) = register_transition c t"

fun build :: "statechart \<Rightarrow> registration list \<Rightarrow> error + statechart" where
  "build c [] = Inr c"
| "build c (r # rs) =
     (case register c r of
        (Inl e, _) \<Rightarrow> Inl e
      | (Inr _, c') \<Rightarrow> build c' rs)"

text \<open>
  The chart of the specification's example: the orthogonal root \<open>R\<close> with the compound
  children \<open>A\<close> (initial \<open>A1\<close>) and \<open>B\<close>, the basic states \<open>A1\<close> and \<open>A2\<close> in \<open>A\<close>, \<open>B1\<close> in \<open>B\<close>,
  and the transition from \<open>A1\<close> to \<open>A2\<close> on \<open>go\<close>.
\<close>

definition example_calls :: "registration list" where
  "example_calls =
     [RegisterState (CompoundState_init ''A'' (Some ''A1'') None None) (ParentName ''R''),
      RegisterState (CompoundState_init ''B'' None None None) (ParentName ''R''),
      RegisterState (BasicState_init ''A1'' None None) (ParentName ''A''),
      RegisterState (BasicState_init ''A2'' None None) (ParentName ''A''),
      RegisterState (BasicState_init ''B1'' None None) (ParentName ''B''),
      RegisterTransition (Transition ''A1'' (Some ''A2'') (Some ''go'') None None)]"

definition example_root :: state where
  "example_root = OrthogonalState_init ''R'' None None"

section \<open>Validation\<close>

text \<open>
  \<open>Transition.__str__\<close>, which \<open>format\<close> uses for a transition, and \<open>StateMixin.__repr__\<close>,
  which it uses for a state (the state classes define no \<open>__str__\<close>).
\<close>

definition str_transition :: "transition \<Rightarrow> string" where
  "str_transition t =
     from_state t
     @ (case event t of None \<Rightarrow> [] | Some e \<Rightarrow> if e = [] then [] else ''+'' @ e)
     @ '' -> ''
     @ (case to_state t of
          None \<Rightarrow> ''['' @ from_state t @ '']''
        | Some n \<Rightarrow> if n = [] then ''['' @ from_state t @ '']'' else n)"

fun class_name :: "state \<Rightarrow> string" where
  "class_name (BasicState _ _ _ _) = ''BasicState''"
| "class_name (CompoundState _ _ _ _ _ _) = ''CompoundState''"
| "class_name (OrthogonalState _ _ _ _ _) = ''OrthogonalState''"
| "class_name (HistoryState _ _ _ _) = ''HistoryState''"
| "class_name (FinalState _ _ _) = ''FinalState''"

definition repr_state :: "state \<Rightarrow> string" where
  "repr_state s = class_name s @ ''('' @ state_name s @ '')''"

text \<open>\<open>isinstance(s, CompoundState)\<close> and \<open>isinstance(s, HistoryState)\<close>.\<close>

fun is_CompoundState :: "state \<Rightarrow> bool" where
  "is_CompoundState (CompoundState _ _ _ _ _ _) = True"
| "is_CompoundState _ = False"

fun is_HistoryState :: "state \<Rightarrow> bool" where
  "is_HistoryState (HistoryState _ _ _ _) = True"
| "is_HistoryState _ = False"

text \<open>
  The attribute \<open>initial\<close> of a compound or history state.  The other classes have no
  such attribute; \<open>validate\<close> reads it only after \<open>isinstance(..., CompoundState)\<close>.
\<close>

fun initial :: "state \<Rightarrow> string option" where
  "initial (CompoundState _ _ _ _ _ ini) = ini"
| "initial (HistoryState _ _ ini _) = ini"
| "initial _ = None"

text \<open>
  The conditions of the six checks, as \<open>validate\<close> writes them.  C1 passes when
  \<open>from_state in self._states and (not to_state or to_state in self._states)\<close>.
\<close>

definition passes_C1 :: "statechart \<Rightarrow> transition \<Rightarrow> bool" where
  "passes_C1 c t =
     (registered c (from_state t) \<and>
      (case to_state t of None \<Rightarrow> True | Some n \<Rightarrow> n = [] \<or> registered c n))"

text \<open>C5 fires when \<open>not event and not guard and not to_state\<close>.\<close>

definition fails_C5 :: "transition \<Rightarrow> bool" where
  "fails_C5 t = (\<not> truthy (event t) \<and> \<not> truthy (guard t) \<and> \<not> truthy (to_state t))"

text \<open>
  C2 fires for a history state when
  \<open>self._states.get(self._parent.get(name, None), None)\<close> is not a compound state.
\<close>

definition parent_state :: "statechart \<Rightarrow> string \<Rightarrow> state option" where
  "parent_state c n =
     (case map_of (parent c) n of
        None \<Rightarrow> None
      | Some None \<Rightarrow> None
      | Some (Some p) \<Rightarrow> map_of (states c) p)"

definition fails_C2 :: "statechart \<Rightarrow> string \<Rightarrow> state \<Rightarrow> bool" where
  "fails_C2 c n s =
     (is_HistoryState s \<and>
      (case parent_state c n of None \<Rightarrow> True | Some p \<Rightarrow> \<not> is_CompoundState p))"

text \<open>C4 fires for a state with a list of children when \<open>len(state.children) <= 0\<close>.\<close>

definition fails_C4 :: "state \<Rightarrow> bool" where
  "fails_C4 s = (case children s of None \<Rightarrow> False | Some cs \<Rightarrow> length cs \<le> 0)"

text \<open>
  C3 fires for a compound state when
  \<open>state.initial and not (state.initial in state.children)\<close>.
\<close>

definition fails_C3 :: "state \<Rightarrow> bool" where
  "fails_C3 s =
     (is_CompoundState s \<and>
      (case initial s of
         None \<Rightarrow> False
       | Some i \<Rightarrow> i \<noteq> [] \<and> (case children s of None \<Rightarrow> True | Some cs \<Rightarrow> i \<notin> set cs)))"

text \<open>
  \<open>self._states.get(transition.to_state, self._states[transition.from_state])\<close>: the default
  is evaluated first and raises \<open>KeyError\<close> when the source is not registered.
\<close>

definition target_state :: "statechart \<Rightarrow> transition \<Rightarrow> error + state" where
  "target_state c t =
     (case map_of (states c) (from_state t) of
        None \<Rightarrow> Inl (KeyError (Some (from_state t)))
      | Some src \<Rightarrow>
          (case to_state t of
             None \<Rightarrow> Inr src
           | Some n \<Rightarrow> (case map_of (states c) n of None \<Rightarrow> Inr src | Some s \<Rightarrow> Inr s)))"

text \<open>C6 fires when the target is a compound state and \<open>not target_state.initial\<close>.\<close>

definition lacks_initial :: "state \<Rightarrow> bool" where
  "lacks_initial s = (is_CompoundState s \<and> \<not> truthy (initial s))"

text \<open>The first loop of \<open>validate\<close>: C1, then C5, for each transition in turn.\<close>

fun validate_C1_C5 :: "statechart \<Rightarrow> transition list \<Rightarrow> error option" where
  "validate_C1_C5 c [] = None"
| "validate_C1_C5 c (t # ts) =
     (if \<not> passes_C1 c t then
        Some (InvalidStatechartError
                (''C1. Transition '' @ str_transition t @ '' refers to an unknown state''))
      else if fails_C5 t then
        Some (InvalidStatechartError
                (''C5. Transition '' @ str_transition t
                 @ '' is an internal, eventless and guardless transition.''))
      else validate_C1_C5 c ts)"

text \<open>The second loop: C2, C4 and C3 for each entry of \<open>_states\<close> in insertion order.\<close>

fun validate_states :: "statechart \<Rightarrow> (string \<times> state) list \<Rightarrow> error option" where
  "validate_states c [] = None"
| "validate_states c ((n, s) # rest) =
     (if fails_C2 c n s then
        Some (InvalidStatechartError
                (''C2. History state '' @ repr_state s
                 @ '' can only be defined in a compound (non-orthogonal) states''))
      else if fails_C4 s then
        Some (InvalidStatechartError
                (''C4. Composite state '' @ repr_state s @ '' should have at least one child''))
      else if fails_C3 s then
        Some (InvalidStatechartError
                (''C3. Initial state of '' @ repr_state s
                 @ '' should refer to one of its children''))
      else validate_states c rest)"

text \<open>The third loop: C6 for each transition in turn.\<close>

fun validate_C6 :: "statechart \<Rightarrow> transition list \<Rightarrow> error option" where
  "validate_C6 c [] = None"
| "validate_C6 c (t # ts) =
     (case target_state c t of
        Inl e \<Rightarrow> Some e
      | Inr s \<Rightarrow>
          if lacks_initial s then
            Some (InvalidStatechartError
                    (''C6. Compound state '' @ repr_state s
                     @ '' has an incoming transition but does not define an initial state.''))
          else validate_C6 c ts)"

definition validate :: "statechart \<Rightarrow> error + bool" where
  "validate c =
     (case validate_C1_C5 c (transitions c) of
        Some e \<Rightarrow> Inl e
      | None \<Rightarrow>
          (case validate_states c (states c) of
             Some e \<Rightarrow> Inl e
           | None \<Rightarrow>
               (case validate_C6 c (transitions c) of
                  Some e \<Rightarrow> Inl e
                | None \<Rightarrow> Inr True)))"

text \<open>
  An outcome is tagged with a rule when it is an \<open>InvalidStatechartError\<close> whose message
  starts with the rule's name and a full stop.
\<close>

fun tagged :: "string \<Rightarrow> error + bool \<Rightarrow> bool" where
  "tagged tg (Inl (InvalidStatechartError msg)) = (take (length tg + 1) msg = tg @ ''.'')"
| "tagged tg _ = False"

text \<open>A chart passes a rule when the rule's check fires for none of its elements.\<close>

definition rule_C1 :: "statechart \<Rightarrow> bool" where
  "rule_C1 c = (\<forall>t \<in> set (transitions c). passes_C1 c t)"

definition rule_C5 :: "statechart \<Rightarrow> bool" where
  "rule_C5 c = (\<forall>t \<in> set (transitions c). \<not> fails_C5 t)"

definition rule_C2 :: "statechart \<Rightarrow> bool" where
  "rule_C2 c = (\<forall>(n, s) \<in> set (states c). \<not> fails_C2 c n s)"

definition rule_C4 :: "statechart \<Rightarrow> bool" where
  "rule_C4 c = (\<forall>(n, s) \<in> set (states c). \<not> fails_C4 s)"

definition rule_C3 :: "statechart \<Rightarrow> bool" where
  "rule_C3 c = (\<forall>(n, s) \<in> set (states c). \<not> fails_C3 s)"

section \<open>Structural queries\<close>

text \<open>
  The loop of \<open>ancestors_for\<close>: \<open>while parent: ancestors.append(parent); parent =
  self._parent[parent]\<close>.  The loop ends when \<open>parent\<close> is \<open>None\<close> or the empty string; a
  name that is no key of \<open>_parent\<close> raises \<open>KeyError\<close>.  Nothing in the loop bounds the
  number of rounds, so the function is partial: the value \<open>None\<close> of the outer option
  type stands for a call that never returns.
\<close>

partial_function (option) ancestors_loop ::
  "statechart \<Rightarrow> string list \<Rightarrow> string option \<Rightarrow> (error + string list) option" where
  "ancestors_loop c ancestors p =
     (case p of
        None \<Rightarrow> Some (Inr ancestors)
      | Some q \<Rightarrow>
          if q = [] then Some (Inr ancestors)
          else (case map_of (parent c) q of
                  None \<Rightarrow> Some (Inl (KeyError (Some q)))
                | Some p' \<Rightarrow> ancestors_loop c (ancestors @ [q]) p'))"

text \<open>
  The queries are wrapped in \<open>lru_cache\<close>; on a chart that no longer changes the cache
  returns what the body computes, so the model is the body.
\<close>

definition ancestors_for :: "statechart \<Rightarrow> string \<Rightarrow> (error + string list) option" where
  "ancestors_for c s =
     (case map_of (parent c) s of
        None \<Rightarrow> Some (Inl (KeyError (Some s)))
      | Some p \<Rightarrow> ancestors_loop c [] p)"

definition depth_for :: "statechart \<Rightarrow> string \<Rightarrow> (error + int) option" where
  "depth_for c s =
     (case ancestors_for c s of
        None \<Rightarrow> None
      | Some (Inl e) \<Rightarrow> Some (Inl e)
      | Some (Inr ancestors) \<Rightarrow> Some (Inr (int (length ancestors) + 1)))"

text \<open>
  \<open>least_common_ancestor\<close>: the first element of \<open>s1_anc\<close> that is in \<open>s2_anc\<close>; the result
  \<open>None\<close> (inside \<open>Inr\<close>) is the \<open>None\<close> that Python returns when the loop finds nothing.
\<close>

definition least_common_ancestor ::
  "statechart \<Rightarrow> string \<Rightarrow> string \<Rightarrow> (error + string option) option" where
  "least_common_ancestor c s1 s2 =
     (case ancestors_for c s1 of
        None \<Rightarrow> None
      | Some (Inl e) \<Rightarrow> Some (Inl e)
      | Some (Inr s1_anc) \<Rightarrow>
          (case ancestors_for c s2 of
             None \<Rightarrow> None
           | Some (Inl e) \<Rightarrow> Some (Inl e)
           | Some (Inr s2_anc) \<Rightarrow> Some (Inr (find (\<lambda>state. state \<in> set s2_anc) s1_anc))))"

text \<open>
  The specification's words for the result of \<open>ancestors_for\<close>: the chain of proper
  ancestors of a state, nearest parent first.  The first element is the parent of the
  state, every further element is the parent of the one before it, and the chain ends
  at a state that has no parent.
\<close>

fun parent_chain :: "(string \<rightharpoonup> string option) \<Rightarrow> string \<Rightarrow> string list \<Rightarrow> bool" where
  "parent_chain par s [] = (par s = Some None)"
| "parent_chain par s (x # xs) = (par s = Some (Some x) \<and> parent_chain par x xs)"

text \<open>
  What the loop appends when it starts at \<open>p\<close> and ends: each element is a non-empty
  name, a key of the parent map, and the value under the last one is \<open>None\<close> or empty.
\<close>

fun loop_chain :: "(string \<rightharpoonup> string option) \<Rightarrow> string option \<Rightarrow> string list \<Rightarrow> bool" where
  "loop_chain par p [] = (\<not> truthy p)"
| "loop_chain par p (x # xs) =
     (p = Some x \<and> x \<noteq> [] \<and> (case par x of None \<Rightarrow> False | Some p' \<Rightarrow> loop_chain par p' xs))"

text \<open>
  Two conditions on a chart: no state is registered with itself as parent, and no state
  has the empty name.
\<close>

definition no_self_parent :: "statechart \<Rightarrow> bool" where
  "no_self_parent c = (\<forall>(n, p) \<in> set (parent c). p \<noteq> Some n)"

definition nonempty_names :: "statechart \<Rightarrow> bool" where
  "nonempty_names c = (\<forall>(n, s) \<in> set (states c). n \<noteq> [])"

text \<open>
  The invariant of the registrations: \<open>_parent\<close> and \<open>_states\<close> have the same keys, the root
  has no parent and is the only such state, and every parent is a key.
\<close>

definition hierarchy_inv :: "statechart \<Rightarrow> bool" where
  "hierarchy_inv c =
     (dom (map_of (parent c)) = dom (map_of (states c)) \<and>
      map_of (parent c) (root c) = Some None \<and>
      (\<forall>n p. map_of (parent c) n = Some (Some p) \<longrightarrow> map_of (parent c) p \<noteq> None) \<and>
      (\<forall>n. map_of (parent c) n = Some None \<longrightarrow> n = root c))"

text \<open>Every walk up the parent map ends, unless some state is its own parent.\<close>

definition chains_end :: "statechart \<Rightarrow> bool" where
  "chains_end c =
     ((\<forall>n. map_of (parent c) n \<noteq> Some (Some n)) \<longrightarrow>
      (\<forall>k p. map_of (parent c) k = Some p \<longrightarrow> (\<exists>xs. loop_chain (map_of (parent c)) p xs)))"

section \<open>Story reconstruction: results\<close>

text \<open>
  C1 (the projection is total on well-formed traces).  At the trace of one macro step at
  time 0 whose single micro step carries the event \<open>go\<close> and nothing else, the call
  \<open>Event('consumed', {'event': macrostep.event})\<close> passes the dict as a second positional
  argument, which \<open>Event.__init__\<close> does not accept: \<open>story_from_trace\<close> raises \<open>TypeError\<close>
  instead of returning a story.
\<close>

theorem story_from_trace_raises_on_event:
  "story_from_trace [MacroStep 0 [MicroStep (Some (Event ''go'' [])) None None None]]
     = Inl TypeError"
  by (simp add: story_from_trace_def MacroStep_def MicroStep_def macrostep_event_def
      Event_init_def)

text \<open>
  C4 (the example trace).  For the macro step at time 1.5 with one micro step that exits
  \<open>A1\<close>, fires the transition from \<open>A1\<close> to \<open>A2\<close> on the event \<open>go\<close> and enters \<open>A2\<close>, the
  pause is appended and then the construction of the \<open>consumed\<close> event raises \<open>TypeError\<close>:
  no story is returned.
\<close>

theorem story_from_trace_example_raises:
  "story_from_trace
     [MacroStep (3 / 2)
        [MicroStep (Some (Event ''go'' []))
           (Some (Transition ''A1'' (Some ''A2'') (Some ''go'') None None))
           (Some [''A2'']) (Some [''A1''])]]
     = Inl TypeError"
  by (simp add: story_from_trace_def MacroStep_def MicroStep_def macrostep_event_def
      Event_init_def)

section \<open>Registration: results\<close>

lemmas chart_defs =
  StateChart_init_def example_root_def BasicState_init_def CompoundState_init_def
  OrthogonalState_init_def HistoryState_init_def FinalState_init_def ContractMixin_init_def
  Transition_def

text \<open>
  C2, as the code has it.  If the name of the state is already registered, \<open>register_state\<close>
  raises \<open>InvalidStatechartError\<close> with the message \<open>State name ... is already used!\<close> and
  leaves the chart as it was.
\<close>

theorem register_state_duplicate:
  "registered c (state_name st) \<Longrightarrow>
   register_state c st par =
     (Inl (InvalidStatechartError (''State name '' @ state_name st @ '' is already used!'')), c)"
  by (simp add: register_state_def registered_def)

theorem register_state_duplicate_witness:
  "registered (StateChart_init ''sc'' example_root None None)
     (state_name (BasicState_init ''R'' None None)) \<and>
   register_state (StateChart_init ''sc'' example_root None None)
     (BasicState_init ''R'' None None) (ParentName ''R'') =
     (Inl (InvalidStatechartError ''State name R is already used!''),
      StateChart_init ''sc'' example_root None None)"
proof -
  have h: "registered (StateChart_init ''sc'' example_root None None)
             (state_name (BasicState_init ''R'' None None))"
    by (simp add: registered_def chart_defs)
  from register_state_duplicate [OF h, of "ParentName ''R''"] h show ?thesis
    by (simp add: chart_defs)
qed

text \<open>
  C2, as the claim states it, fails: registering a second state named \<open>R\<close> in the chart
  whose root is \<open>R\<close> does not raise \<open>DuplicateNameError\<close>.
\<close>

theorem register_state_duplicate_counterexample:
  "registered (StateChart_init ''sc'' example_root None None)
     (state_name (BasicState_init ''R'' None None)) \<and>
   fst (register_state (StateChart_init ''sc'' example_root None None)
          (BasicState_init ''R'' None None) (ParentName ''R'')) \<noteq> Inl DuplicateNameError"
  by (simp add: register_state_def registered_def chart_defs)

text \<open>
  C3, as the code has it.  \<open>register_transition\<close> always appends the transition to the
  chart's list.  It then returns if, and only if, the source name is registered and its
  state has a transition list; in that case the transition is appended to that list and
  nothing else changes: the chart it leaves is the old chart with the longer list of
  transitions and, under the source name, the source state with the longer list (same
  class, name, children, initial, contract and actions), every entry of \<open>_states\<close> in its
  old place.  If the source name is not registered the call
  raises \<open>KeyError\<close>, if its state has no transition list (a history or final state) it
  raises \<open>AttributeError\<close>; in both cases only the chart's list has changed.
\<close>

theorem register_transition_outcome:
  "transitions (snd (register_transition c t)) = transitions c @ [t] \<and>
   (fst (register_transition c t) = Inr () \<longleftrightarrow>
      (\<exists>s ts. map_of (states c) (from_state t) = Some s \<and> state_transitions s = Some ts)) \<and>
   (\<forall>s ts. map_of (states c) (from_state t) = Some s \<longrightarrow> state_transitions s = Some ts \<longrightarrow>
      (\<exists>s'. map_of (states (snd (register_transition c t))) (from_state t) = Some s' \<and>
            state_transitions s' = Some (ts @ [t]) \<and> state_name s' = state_name s \<and>
            children s' = children s) \<and>
      (\<forall>n. n \<noteq> from_state t \<longrightarrow>
            map_of (states (snd (register_transition c t))) n = map_of (states c) n)) \<and>
   (\<forall>s ts. map_of (states c) (from_state t) = Some s \<longrightarrow> state_transitions s = Some ts \<longrightarrow>
      register_transition c t =
        (Inr (), c\<lparr>transitions := transitions c @ [t],
                   states := AList.update (from_state t) (append_transition t s) (states c)\<rparr>) \<and>
      state_name (append_transition t s) = state_name s \<and>
      class_name (append_transition t s) = class_name s \<and>
      children (append_transition t s) = children s \<and>
      initial (append_transition t s) = initial s \<and>
      state_contract (append_transition t s) = state_contract s \<and>
      state_actions (append_transition t s) = state_actions s) \<and>
   (map_of (states c) (from_state t) = None \<longrightarrow>
      register_transition c t =
        (Inl (KeyError (Some (from_state t))), c\<lparr>transitions := transitions c @ [t]\<rparr>)) \<and>
   (\<forall>s. map_of (states c) (from_state t) = Some s \<longrightarrow> state_transitions s = None \<longrightarrow>
      register_transition c t =
        (Inl (AttributeError ''transitions''), c\<lparr>transitions := transitions c @ [t]\<rparr>))"
proof (cases "map_of (states c) (from_state t)")
  case None
  then show ?thesis by (simp add: register_transition_def Let_def)
next
  case (Some s)
  then show ?thesis
    by (cases s) (simp_all add: register_transition_def Let_def update_conv')
qed

theorem register_transition_outcome_witness:
  "fst (register_transition (StateChart_init ''sc'' example_root None None)
          (Transition ''R'' None (Some ''e'') None None)) = Inr () \<and>
   transitions (snd (register_transition (StateChart_init ''sc'' example_root None None)
          (Transition ''R'' None (Some ''e'') None None))) =
     [Transition ''R'' None (Some ''e'') None None] \<and>
   register_transition (StateChart_init ''sc'' example_root None None)
          (Transition ''R'' None (Some ''e'') None None) =
     (Inr (),
      (StateChart_init ''sc'' example_root None None)
        \<lparr>transitions := [Transition ''R'' None (Some ''e'') None None],
         states := [(''R'', append_transition (Transition ''R'' None (Some ''e'') None None)
                             example_root)]\<rparr>) \<and>
   register_transition (StateChart_init ''sc'' example_root None None)
          (Transition ''X'' None (Some ''e'') None None) =
     (Inl (KeyError (Some ''X'')),
      (StateChart_init ''sc'' example_root None None)
        \<lparr>transitions := [Transition ''X'' None (Some ''e'') None None]\<rparr>)"
  using register_transition_outcome [of "StateChart_init ''sc'' example_root None None"
      "Transition ''R'' None (Some ''e'') None None"]
    register_transition_outcome [of "StateChart_init ''sc'' example_root None None"
      "Transition ''X'' None (Some ''e'') None None"]
  by (simp add: chart_defs)

text \<open>
  C3, as the claim states it, fails: in the chart that holds only its root \<open>R\<close>, registering
  a transition whose source \<open>X\<close> is not registered raises \<open>KeyError\<close>.
\<close>

theorem register_transition_counterexample:
  "fst (register_transition (StateChart_init ''sc'' example_root None None)
          (Transition ''X'' None (Some ''e'') None None)) = Inl (KeyError (Some ''X''))"
  by (simp add: register_transition_def chart_defs)

text \<open>
  C10, as the code has it.  For a state whose name is not registered yet,
  \<open>register_state\<close> returns if, and only if, the parent argument gives a name under which,
  once the new state has been stored, a state with a list of children is found: a state
  registered before, or the new state itself.  Otherwise it raises \<open>KeyError\<close> (no state
  under the parent's name) or \<open>AttributeError\<close> (no list of children), and the chart it
  leaves holds the new state and its parent entry.
\<close>

theorem register_state_fresh:
  assumes "\<not> registered c (state_name st)"
  shows "(fst (register_state c st par) = Inr () \<longleftrightarrow>
            (\<exists>pn ps. parent_name par = Some pn \<and>
               (if pn = state_name st then Some st else map_of (states c) pn) = Some ps \<and>
               children ps \<noteq> None)) \<and>
         (fst (register_state c st par) \<noteq> Inr () \<longrightarrow>
            (fst (register_state c st par) = Inl (AttributeError ''children'') \<or>
             (\<exists>k. fst (register_state c st par) = Inl (KeyError k))) \<and>
            map_of (states (snd (register_state c st par))) (state_name st) = Some st \<and>
            map_of (parent (snd (register_state c st par))) (state_name st) =
              Some (parent_name par))"
  using assms
  by (auto simp add: register_state_def registered_def Let_def update_conv'
      split: option.splits)

theorem register_state_fresh_witness:
  "\<not> registered (StateChart_init ''sc'' example_root None None)
        (state_name (BasicState_init ''A'' None None)) \<and>
   fst (register_state (StateChart_init ''sc'' example_root None None)
          (BasicState_init ''A'' None None) (ParentName ''R'')) = Inr () \<and>
   fst (register_state (StateChart_init ''sc'' example_root None None)
          (BasicState_init ''A'' None None) (ParentName ''Q'')) \<noteq> Inr () \<and>
   map_of (states (snd (register_state (StateChart_init ''sc'' example_root None None)
          (BasicState_init ''A'' None None) (ParentName ''Q'')))) ''A'' =
     Some (BasicState_init ''A'' None None)"
proof -
  have h: "\<not> registered (StateChart_init ''sc'' example_root None None)
               (state_name (BasicState_init ''A'' None None))"
    by (simp add: registered_def chart_defs)
  from register_state_fresh [OF h, of "ParentName ''R''"]
    register_state_fresh [OF h, of "ParentName ''Q''"] h
  show ?thesis by (simp add: chart_defs)
qed

text \<open>
  C10, as the claim states it, fails: the compound state \<open>X\<close>, not registered before, is
  registered with itself as parent, and the call returns.
\<close>

theorem register_state_fresh_counterexample:
  "\<not> registered (StateChart_init ''sc'' example_root None None)
        (state_name (CompoundState_init ''X'' None None None)) \<and>
   parent_name (ParentName ''X'') = Some ''X'' \<and>
   fst (register_state (StateChart_init ''sc'' example_root None None)
          (CompoundState_init ''X'' None None None) (ParentName ''X'')) = Inr ()"
  by (simp add: register_state_def registered_def chart_defs)

section \<open>Validation: results\<close>

lemmas reg_defs = register_state_def register_transition_def registered_def Let_def

lemma validate_C1_C5_fires:
  "\<forall>t \<in> set ts. passes_C1 c t \<Longrightarrow> \<exists>t \<in> set ts. fails_C5 t \<Longrightarrow>
   \<exists>msg. validate_C1_C5 c ts = Some (InvalidStatechartError (''C5.'' @ msg))"
  by (induction ts) auto






text \<open>
  C8.  In a chart whose transitions all pass the check C1, a transition without target,
  without event and without guard makes \<open>validate\<close> raise an error tagged C5.
\<close>

theorem validate_internal_eventless_guardless:
  assumes "rule_C1 c" and "t \<in> set (transitions c)"
    and "to_state t = None" and "event t = None" and "guard t = None"
  shows "tagged ''C5'' (validate c)"
proof -
  from assms(3-5) have "fails_C5 t"
    by (simp add: fails_C5_def)
  with assms(2) have "\<exists>t \<in> set (transitions c). fails_C5 t"
    by blast
  with assms(1) obtain msg where
    "validate_C1_C5 c (transitions c) = Some (InvalidStatechartError (''C5.'' @ msg))"
    using validate_C1_C5_fires unfolding rule_C1_def by blast
  then show ?thesis by (simp add: validate_def)
qed

theorem validate_internal_eventless_guardless_witness:
  "rule_C1 (projr (build (StateChart_init ''sc'' example_root None None)
      (example_calls @ [RegisterTransition (Transition ''A1'' None None None None)]))) \<and>
   Transition ''A1'' None None None None \<in> set (transitions
     (projr (build (StateChart_init ''sc'' example_root None None)
      (example_calls @ [RegisterTransition (Transition ''A1'' None None None None)])))) \<and>
   tagged ''C5'' (validate (projr (build (StateChart_init ''sc'' example_root None None)
      (example_calls @ [RegisterTransition (Transition ''A1'' None None None None)]))))"
proof -
  let ?c = "projr (build (StateChart_init ''sc'' example_root None None)
      (example_calls @ [RegisterTransition (Transition ''A1'' None None None None)]))"
  have h1: "rule_C1 ?c"
    by (simp add: example_calls_def chart_defs reg_defs rule_C1_def passes_C1_def)
  have h2: "Transition ''A1'' None None None None \<in> set (transitions ?c)"
    by (simp add: example_calls_def chart_defs reg_defs)
  have h3: "to_state (Transition ''A1'' None None None None) = None"
    and h4: "event (Transition ''A1'' None None None None) = None"
    and h5: "guard (Transition ''A1'' None None None None) = None"
    by (simp_all add: Transition_def)
  from validate_internal_eventless_guardless [OF h1 h2 h3 h4 h5] h1 h2 show ?thesis
    by simp
qed


lemmas rule_defs = rule_C1_def rule_C2_def rule_C3_def rule_C4_def rule_C5_def
  passes_C1_def fails_C2_def fails_C3_def fails_C4_def fails_C5_def parent_state_def


section \<open>Structural queries: the ancestor chain\<close>

text \<open>Chains along the parent map are determined by their start and never repeat a state.\<close>

lemma loop_chain_det: "loop_chain par p xs \<Longrightarrow> loop_chain par p ys \<Longrightarrow> xs = ys"
proof (induction xs arbitrary: p ys)
  case Nil
  then show ?case by (cases ys) auto
next
  case (Cons x xs)
  then show ?case by (cases ys) (auto split: option.splits)
qed

lemma loop_chain_split:
  "loop_chain par p (us @ x # vs) \<Longrightarrow> \<exists>p'. par x = Some p' \<and> loop_chain par p' vs"
  by (induction us arbitrary: p) (auto split: option.splits)

lemma loop_chain_dom: "loop_chain par p xs \<Longrightarrow> x \<in> set xs \<Longrightarrow> par x \<noteq> None \<and> x \<noteq> []"
  by (induction xs arbitrary: p) (auto split: option.splits)

lemma loop_chain_distinct: "loop_chain par p xs \<Longrightarrow> distinct xs"
proof (induction xs arbitrary: p)
  case Nil
  then show ?case by simp
next
  case (Cons x xs)
  from Cons.prems obtain p' where p': "par x = Some p'" "loop_chain par p' xs"
    by (auto split: option.splits)
  have "x \<notin> set xs"
  proof
    assume "x \<in> set xs"
    then obtain us vs where xs: "xs = us @ x # vs" by (auto dest: split_list)
    with p'(2) loop_chain_split [of par p' us x vs] p'(1)
    have "loop_chain par p' vs" by auto
    with p'(2) have "xs = vs" by (rule loop_chain_det)
    with xs show False by simp
  qed
  with Cons.IH [OF p'(2)] show ?case by simp
qed

lemma find_first:
  "\<forall>v \<in> set vs. \<not> P v \<Longrightarrow> P x \<Longrightarrow> find P (vs @ x # zs) = Some x"
  by (induction vs) auto

lemma loop_chain_find_sym:
  "loop_chain par p xs \<Longrightarrow> loop_chain par q ys \<Longrightarrow>
   find (\<lambda>x. x \<in> set ys) xs = find (\<lambda>y. y \<in> set xs) ys"
proof (induction xs arbitrary: p)
  case Nil
  then show ?case by (simp add: find_None_iff2)
next
  case (Cons x xs)
  from Cons.prems(1) obtain p' where p': "par x = Some p'" "loop_chain par p' xs"
    by (auto split: option.splits)
  show ?case
  proof (cases "x \<in> set ys")
    case True
    then obtain vs zs where ys: "ys = vs @ x # zs" by (auto dest: split_list)
    with Cons.prems(2) loop_chain_split [of par q vs x zs] p'(1)
    have "loop_chain par p' zs" by auto
    with p'(2) have zs: "xs = zs" by (rule loop_chain_det)
    from Cons.prems(2) have "distinct ys" by (rule loop_chain_distinct)
    with ys zs have "\<forall>v \<in> set vs. v \<notin> set (x # xs)" by auto
    then have "find (\<lambda>y. y \<in> set (x # xs)) (vs @ x # zs) = Some x"
      by (intro find_first) auto
    with True ys show ?thesis by simp
  next
    case False
    have "find (\<lambda>y. y \<in> set (x # xs)) ys = find (\<lambda>y. y \<in> set xs) ys"
      using False by (intro find_cong) auto
    with False Cons.IH [OF p'(2) Cons.prems(2)] show ?thesis by simp
  qed
qed

lemma loop_chain_upd:
  "loop_chain par p xs \<Longrightarrow> par n = None \<Longrightarrow> loop_chain (par(n \<mapsto> v)) p xs"
  by (induction xs arbitrary: p) (auto split: option.splits)

lemma ancestors_loop_returns:
  "loop_chain (map_of (parent c)) p xs \<Longrightarrow> ancestors_loop c acc p = Some (Inr (acc @ xs))"
proof (induction xs arbitrary: p acc)
  case Nil
  then show ?case by (cases p) (auto simp: ancestors_loop.simps)
next
  case (Cons x xs)
  from Cons.prems obtain p' where p': "p = Some x" "x \<noteq> []"
    "map_of (parent c) x = Some p'" "loop_chain (map_of (parent c)) p' xs"
    by (auto split: option.splits)
  from Cons.IH [OF p'(4), of "acc @ [x]"] p'(1-3) show ?case
    by (subst ancestors_loop.simps) simp
qed

lemma ancestors_loop_result_aux:
  assumes "ancestors_loop c acc p = Some r"
  shows "(\<forall>n q. map_of (parent c) n = Some (Some q) \<longrightarrow> map_of (parent c) q \<noteq> None) \<longrightarrow>
         (\<forall>q. p = Some q \<longrightarrow> map_of (parent c) q \<noteq> None) \<longrightarrow>
         (\<exists>xs. r = Inr (acc @ xs) \<and> loop_chain (map_of (parent c)) p xs)"
proof (rule ancestors_loop.raw_induct [OF _ assms, where P = "\<lambda>c acc p r.
         (\<forall>n q. map_of (parent c) n = Some (Some q) \<longrightarrow> map_of (parent c) q \<noteq> None) \<longrightarrow>
         (\<forall>q. p = Some q \<longrightarrow> map_of (parent c) q \<noteq> None) \<longrightarrow>
         (\<exists>xs. r = Inr (acc @ xs) \<and> loop_chain (map_of (parent c)) p xs)"], intro impI)
  fix loop c acc p r
  assume IH: "\<And>c acc p r. loop c acc p = Some r \<Longrightarrow>
         (\<forall>n q. map_of (parent c) n = Some (Some q) \<longrightarrow> map_of (parent c) q \<noteq> None) \<longrightarrow>
         (\<forall>q. p = Some q \<longrightarrow> map_of (parent c) q \<noteq> None) \<longrightarrow>
         (\<exists>xs. r = Inr (acc @ xs) \<and> loop_chain (map_of (parent c)) p xs)"
    and body: "(case p of None \<Rightarrow> Some (Inr acc)
          | Some q \<Rightarrow> if q = [] then Some (Inr acc)
              else (case map_of (parent c) q of None \<Rightarrow> Some (Inl (KeyError (Some q)))
                    | Some p' \<Rightarrow> loop c (acc @ [q]) p')) = Some r"
    and closed: "\<forall>n q. map_of (parent c) n = Some (Some q) \<longrightarrow> map_of (parent c) q \<noteq> None"
    and start: "\<forall>q. p = Some q \<longrightarrow> map_of (parent c) q \<noteq> None"
  show "\<exists>xs. r = Inr (acc @ xs) \<and> loop_chain (map_of (parent c)) p xs"
  proof (cases "truthy p")
    case False
    with body have "r = Inr acc" by (cases p) (auto split: if_splits)
    with False show ?thesis by (intro exI [of _ "[]"]) simp
  next
    case True
    then obtain q where q: "p = Some q" "q \<noteq> []" by (cases p) auto
    with start obtain p' where p': "map_of (parent c) q = Some p'" by auto
    with q body have call: "loop c (acc @ [q]) p' = Some r" by simp
    have "\<forall>q'. p' = Some q' \<longrightarrow> map_of (parent c) q' \<noteq> None"
      using p' closed by blast
    with IH [OF call] closed obtain xs
      where xs: "r = Inr ((acc @ [q]) @ xs)" "loop_chain (map_of (parent c)) p' xs" by blast
    with q p' show ?thesis by (intro exI [of _ "q # xs"]) simp
  qed
qed

section \<open>Structural queries: the invariant of registration\<close>

lemma register_state_success_struct:
  assumes "register_state c st par = (Inr (), c')"
  shows "\<exists>pn ps. map_of (states c) (state_name st) = None \<and>
          map_of (AList.update (state_name st) st (states c)) pn = Some ps \<and>
          states c' = AList.update pn (append_child (state_name st) ps)
                            (AList.update (state_name st) st (states c)) \<and>
          parent c' = AList.update (state_name st) (Some pn) (parent c) \<and>
          root c' = root c"
proof -
  have fresh: "map_of (states c) (state_name st) = None"
  proof (rule ccontr)
    assume "map_of (states c) (state_name st) \<noteq> None"
    with assms show False by (simp add: register_state_def)
  qed
  show ?thesis
  proof (cases "parent_name par")
    case None
    with assms fresh show ?thesis
      by (simp add: register_state_def Let_def update_conv')
  next
    case (Some pn)
    show ?thesis
    proof (cases "map_of (AList.update (state_name st) st (states c)) pn")
      case None
      with assms fresh Some show ?thesis
        by (simp add: register_state_def Let_def update_conv')
    next
      case (Some ps)
      note ps = this
      show ?thesis
      proof (cases "children ps")
        case None
        with assms fresh \<open>parent_name par = Some pn\<close> ps show ?thesis
          by (simp add: register_state_def Let_def update_conv')
      next
        case (Some cs)
        from assms have c': "c' = snd (register_state c st par)" by simp
        have "states c' = AList.update pn (append_child (state_name st) ps)
                            (AList.update (state_name st) st (states c))"
          and "parent c' = AList.update (state_name st) (Some pn) (parent c)"
          and "root c' = root c"
          unfolding c' using fresh \<open>parent_name par = Some pn\<close> ps Some
          by (simp_all add: register_state_def Let_def update_conv')
        with fresh ps show ?thesis by blast
      qed
    qed
  qed
qed

lemma register_state_success:
  assumes "register_state c st par = (Inr (), c')"
  shows "\<exists>pn. map_of (states c) (state_name st) = None \<and>
          map_of (parent c') = (map_of (parent c))(state_name st \<mapsto> Some pn) \<and>
          dom (map_of (states c')) = insert (state_name st) (dom (map_of (states c))) \<and>
          (pn = state_name st \<or> pn \<in> dom (map_of (states c))) \<and>
          root c' = root c"
proof -
  from register_state_success_struct [OF assms] obtain pn ps where
    fresh: "map_of (states c) (state_name st) = None"
    and ps: "map_of (AList.update (state_name st) st (states c)) pn = Some ps"
    and st': "states c' = AList.update pn (append_child (state_name st) ps)
                            (AList.update (state_name st) st (states c))"
    and pa': "parent c' = AList.update (state_name st) (Some pn) (parent c)"
    and 3: "root c' = root c"
    by blast
  have pn: "pn = state_name st \<or> pn \<in> dom (map_of (states c))"
  proof (cases "pn = state_name st")
    case True
    then show ?thesis by simp
  next
    case False
    with ps have "map_of (states c) pn = Some ps" by (simp add: update_conv')
    then show ?thesis by (simp add: domIff)
  qed
  have 1: "map_of (parent c') = (map_of (parent c))(state_name st \<mapsto> Some pn)"
    by (simp add: pa' update_conv')
  have "dom (map_of (states c')) = insert pn (insert (state_name st) (dom (map_of (states c))))"
    by (simp add: st' update_conv')
  with pn have 2: "dom (map_of (states c')) = insert (state_name st) (dom (map_of (states c)))"
    by auto
  from fresh 1 2 pn 3 show ?thesis by blast
qed

lemma register_transition_success:
  assumes "register_transition c t = (Inr (), c')"
  shows "parent c' = parent c \<and> dom (map_of (states c')) = dom (map_of (states c)) \<and>
         root c' = root c"
proof (cases "map_of (states c) (from_state t)")
  case None
  with assms show ?thesis by (simp add: register_transition_def Let_def)
next
  case (Some s)
  show ?thesis
  proof (cases "state_transitions s")
    case None
    with assms Some show ?thesis by (simp add: register_transition_def Let_def)
  next
    case (Some ts)
    with assms \<open>map_of (states c) (from_state t) = Some s\<close>
    have eq: "c' = snd (register_transition c t)" by simp
    have c': "states c' = AList.update (from_state t) (append_transition t s) (states c)"
      "parent c' = parent c" "root c' = root c"
      unfolding eq using \<open>map_of (states c) (from_state t) = Some s\<close> Some
      by (simp_all add: register_transition_def Let_def)
    from \<open>map_of (states c) (from_state t) = Some s\<close>
    have "from_state t \<in> dom (map_of (states c))" by (simp add: domIff)
    then have "insert (from_state t) (dom (map_of (states c))) = dom (map_of (states c))"
      by (rule insert_absorb)
    then show ?thesis by (simp add: c' update_conv')
  qed
qed

lemma hierarchy_inv_init: "hierarchy_inv (StateChart_init nm r d b)"
  by (simp add: hierarchy_inv_def StateChart_init_def)

lemma chains_end_init: "chains_end (StateChart_init nm r d b)"
proof -
  have "\<exists>xs. loop_chain (map_of [(state_name r, None)]) None xs"
    by (intro exI [of _ "[]"]) simp
  then show ?thesis
    by (auto simp: chains_end_def StateChart_init_def split: if_splits)
qed

lemma register_state_hierarchy_inv:
  assumes "hierarchy_inv c" and "register_state c st par = (Inr (), c')"
  shows "hierarchy_inv c'"
proof -
  from register_state_success [OF assms(2)] obtain pn where
    fresh: "map_of (states c) (state_name st) = None"
    and par: "map_of (parent c') = (map_of (parent c))(state_name st \<mapsto> Some pn)"
    and dm: "dom (map_of (states c')) = insert (state_name st) (dom (map_of (states c)))"
    and pn: "pn = state_name st \<or> pn \<in> dom (map_of (states c))"
    and rt: "root c' = root c"
    by blast
  from assms(1) have d: "dom (map_of (parent c)) = dom (map_of (states c))"
    and r: "map_of (parent c) (root c) = Some None"
    and cl: "\<forall>n p. map_of (parent c) n = Some (Some p) \<longrightarrow> map_of (parent c) p \<noteq> None"
    and un: "\<forall>n. map_of (parent c) n = Some None \<longrightarrow> n = root c"
    by (simp_all add: hierarchy_inv_def)
  from fresh have "state_name st \<notin> dom (map_of (states c))" by (simp add: domIff)
  with d have "state_name st \<notin> dom (map_of (parent c))" by simp
  then have fresh': "map_of (parent c) (state_name st) = None" by (simp add: domIff)
  with r have ne: "root c \<noteq> state_name st" by auto
  have 1: "dom (map_of (parent c')) = dom (map_of (states c'))"
    using par dm d by simp
  have 2: "map_of (parent c') (root c') = Some None"
    using par rt r ne by simp
  have 3: "\<forall>n p. map_of (parent c') n = Some (Some p) \<longrightarrow> map_of (parent c') p \<noteq> None"
  proof (intro allI impI)
    fix n p
    assume a: "map_of (parent c') n = Some (Some p)"
    show "map_of (parent c') p \<noteq> None"
    proof (cases "n = state_name st")
      case True
      with a par have "p = pn" by simp
      with pn d par show ?thesis by (auto simp: dom_def)
    next
      case False
      with a par have "map_of (parent c) n = Some (Some p)" by simp
      with cl have "map_of (parent c) p \<noteq> None" by blast
      with par show ?thesis by simp
    qed
  qed
  have 4: "\<forall>n. map_of (parent c') n = Some None \<longrightarrow> n = root c'"
    using par un rt by (auto split: if_splits)
  show ?thesis unfolding hierarchy_inv_def by (rule conjI [OF 1 conjI [OF 2 conjI [OF 3 4]]])
qed

lemma register_state_chains_end:
  assumes "hierarchy_inv c" and "chains_end c" and "register_state c st par = (Inr (), c')"
  shows "chains_end c'"
  unfolding chains_end_def
proof (intro impI allI)
  fix k p
  assume nsp: "\<forall>n. map_of (parent c') n \<noteq> Some (Some n)"
    and k: "map_of (parent c') k = Some p"
  from register_state_success [OF assms(3)] obtain pn where
    fresh: "map_of (states c) (state_name st) = None"
    and par: "map_of (parent c') = (map_of (parent c))(state_name st \<mapsto> Some pn)"
    and pn: "pn = state_name st \<or> pn \<in> dom (map_of (states c))"
    by blast
  from assms(1) have d: "dom (map_of (parent c)) = dom (map_of (states c))"
    by (simp add: hierarchy_inv_def)
  from fresh have "state_name st \<notin> dom (map_of (states c))" by (simp add: domIff)
  with d have "state_name st \<notin> dom (map_of (parent c))" by simp
  then have fresh': "map_of (parent c) (state_name st) = None" by (simp add: domIff)
  have nsp0: "\<forall>n. map_of (parent c) n \<noteq> Some (Some n)"
  proof
    fix n
    show "map_of (parent c) n \<noteq> Some (Some n)"
      using nsp [rule_format, of n] par fresh' by (cases "n = state_name st") auto
  qed
  with assms(2) have ch: "\<And>k p. map_of (parent c) k = Some p \<Longrightarrow>
      \<exists>xs. loop_chain (map_of (parent c)) p xs"
    by (auto simp: chains_end_def)
  have lift: "\<And>p xs. loop_chain (map_of (parent c)) p xs \<Longrightarrow> loop_chain (map_of (parent c')) p xs"
    using loop_chain_upd [where par = "map_of (parent c)" and n = "state_name st"] fresh' par
    by simp
  show "\<exists>xs. loop_chain (map_of (parent c')) p xs"
  proof (cases "k = state_name st")
    case False
    with k par have "map_of (parent c) k = Some p" by simp
    from ch [OF this] lift show ?thesis by blast
  next
    case True
    with k par have p: "p = Some pn" by simp
    from nsp [rule_format, of "state_name st"] par have "pn \<noteq> state_name st" by auto
    with pn d obtain p' where p': "map_of (parent c) pn = Some p'" by (auto simp: dom_def)
    from ch [OF this] obtain xs where xs: "loop_chain (map_of (parent c)) p' xs" by blast
    show ?thesis
    proof (cases "pn = []")
      case True
      with p show ?thesis by (intro exI [of _ "[]"]) simp
    next
      case False
      from p' par \<open>pn \<noteq> state_name st\<close> have "map_of (parent c') pn = Some p'" by simp
      with False p lift [OF xs] show ?thesis by (intro exI [of _ "pn # xs"]) simp
    qed
  qed
qed

lemma register_transition_inv:
  assumes "hierarchy_inv c" and "chains_end c" and "register_transition c t = (Inr (), c')"
  shows "hierarchy_inv c' \<and> chains_end c'"
proof -
  from register_transition_success [OF assms(3)]
  have p: "parent c' = parent c" and d: "dom (map_of (states c')) = dom (map_of (states c))"
    and r: "root c' = root c"
    by blast+
  have "hierarchy_inv c'"
    using assms(1) unfolding hierarchy_inv_def p d r .
  moreover have "chains_end c'"
    using assms(2) unfolding chains_end_def p .
  ultimately show ?thesis ..
qed

lemma build_inv:
  "build c rs = Inr c' \<Longrightarrow> hierarchy_inv c \<Longrightarrow> chains_end c \<Longrightarrow> hierarchy_inv c' \<and> chains_end c'"
proof (induction rs arbitrary: c)
  case Nil
  then show ?case by simp
next
  case (Cons r rs)
  from Cons.prems(1) obtain c1 where c1: "register c r = (Inr (), c1)" "build c1 rs = Inr c'"
    by (auto split: prod.splits sum.splits)
  have "hierarchy_inv c1 \<and> chains_end c1"
  proof (cases r)
    case (RegisterState st par)
    with c1(1) have "register_state c st par = (Inr (), c1)" by simp
    from register_state_hierarchy_inv [OF Cons.prems(2) this]
      register_state_chains_end [OF Cons.prems(2,3) this]
    show ?thesis ..
  next
    case (RegisterTransition t)
    with c1(1) have "register_transition c t = (Inr (), c1)" by simp
    from register_transition_inv [OF Cons.prems(2,3) this] show ?thesis .
  qed
  with Cons.IH [OF c1(2)] show ?case by simp
qed

lemma built_inv:
  "build (StateChart_init nm r d b) rs = Inr c \<Longrightarrow> hierarchy_inv c \<and> chains_end c"
  by (rule build_inv [OF _ hierarchy_inv_init chains_end_init])

section \<open>Structural queries: results\<close>

lemma no_self_parent_map:
  "no_self_parent c \<Longrightarrow> map_of (parent c) n \<noteq> Some (Some n)"
proof
  assume nsp: "no_self_parent c" and "map_of (parent c) n = Some (Some n)"
  then have "(n, Some n) \<in> set (parent c)" by (simp add: map_of_SomeD)
  with nsp show False by (auto simp: no_self_parent_def)
qed

lemma nonempty_names_map: "nonempty_names c \<Longrightarrow> map_of (states c) [] = None"
proof (rule ccontr)
  assume ne: "nonempty_names c" and "map_of (states c) [] \<noteq> None"
  then obtain s where "map_of (states c) [] = Some s" by auto
  then have "([], s) \<in> set (states c)" by (rule map_of_SomeD)
  with ne show False by (auto simp: nonempty_names_def)
qed

lemma registered_parent:
  assumes "hierarchy_inv c"
  shows "registered c s \<longleftrightarrow> map_of (parent c) s \<noteq> None"
proof -
  from assms have "dom (map_of (parent c)) = dom (map_of (states c))"
    by (simp add: hierarchy_inv_def)
  then have "s \<in> dom (map_of (parent c)) \<longleftrightarrow> s \<in> dom (map_of (states c))" by simp
  then show ?thesis by (simp add: registered_def domIff)
qed

lemma ancestors_for_cases:
  assumes "hierarchy_inv c" and "registered c s"
  shows "ancestors_for c s = None \<or>
         (\<exists>p xs. map_of (parent c) s = Some p \<and> ancestors_for c s = Some (Inr xs) \<and>
                 loop_chain (map_of (parent c)) p xs)"
proof -
  from assms obtain p where p: "map_of (parent c) s = Some p"
    using registered_parent by auto
  from assms(1) have cl: "\<forall>n q. map_of (parent c) n = Some (Some q) \<longrightarrow> map_of (parent c) q \<noteq> None"
    by (simp add: hierarchy_inv_def)
  with p have start: "\<forall>q. p = Some q \<longrightarrow> map_of (parent c) q \<noteq> None" by blast
  show ?thesis
  proof (cases "ancestors_loop c [] p")
    case None
    with p show ?thesis by (simp add: ancestors_for_def)
  next
    case (Some r)
    from ancestors_loop_result_aux [OF Some] cl start obtain xs
      where "r = Inr ([] @ xs)" "loop_chain (map_of (parent c)) p xs" by blast
    with p Some show ?thesis by (simp add: ancestors_for_def)
  qed
qed

lemma ancestors_for_returns:
  assumes "hierarchy_inv c" and "chains_end c" and "no_self_parent c" and "registered c s"
  shows "\<exists>p xs. map_of (parent c) s = Some p \<and> ancestors_for c s = Some (Inr xs) \<and>
                 loop_chain (map_of (parent c)) p xs"
proof -
  from assms(1,4) obtain p where p: "map_of (parent c) s = Some p"
    using registered_parent by auto
  from assms(3) have "\<forall>n. map_of (parent c) n \<noteq> Some (Some n)"
    using no_self_parent_map by blast
  with assms(2) p obtain xs where xs: "loop_chain (map_of (parent c)) p xs"
    unfolding chains_end_def by blast
  from ancestors_loop_returns [OF xs, of "[]"] p
  have "ancestors_for c s = Some (Inr xs)" by (simp add: ancestors_for_def)
  with p xs show ?thesis by blast
qed

lemma loop_chain_parent_chain:
  "par s = Some p \<Longrightarrow> loop_chain par p xs \<Longrightarrow>
   \<forall>n q. par n = Some (Some q) \<longrightarrow> par q \<noteq> None \<Longrightarrow> par [] = None \<Longrightarrow>
   parent_chain par s xs"
proof (induction xs arbitrary: s p)
  case Nil
  show ?case
  proof (cases p)
    case None
    with Nil show ?thesis by simp
  next
    case (Some q)
    with Nil have "q = []" by simp
    with Some Nil.prems(1) have "par s = Some (Some [])" by simp
    with Nil.prems(3) have "par [] \<noteq> None" by blast
    with Nil.prems(4) show ?thesis by simp
  qed
next
  case (Cons x xs)
  from Cons.prems(2) obtain p' where p': "p = Some x" "par x = Some p'" "loop_chain par p' xs"
    by (auto split: option.splits)
  from Cons.IH [OF p'(2,3) Cons.prems(3,4)] Cons.prems(1) p'(1) show ?case by simp
qed

lemma parent_chain_last:
  "parent_chain par s xs \<Longrightarrow> xs \<noteq> [] \<Longrightarrow> par (last xs) = Some None"
proof (induction xs arbitrary: s)
  case Nil
  then show ?case by simp
next
  case (Cons x xs)
  then show ?case by (cases xs) auto
qed

lemma ancestors_loop_self_parent_aux:
  assumes "ancestors_loop c acc p = Some r"
  shows "\<not> (p = Some x \<and> x \<noteq> [] \<and> map_of (parent c) x = Some (Some x))"
proof (rule ancestors_loop.raw_induct [OF _ assms, where P = "\<lambda>c acc p r.
         \<not> (p = Some x \<and> x \<noteq> [] \<and> map_of (parent c) x = Some (Some x))"])
  fix loop c acc p r
  assume IH: "\<And>c acc p r. loop c acc p = Some r \<Longrightarrow>
         \<not> (p = Some x \<and> x \<noteq> [] \<and> map_of (parent c) x = Some (Some x))"
    and body: "(case p of None \<Rightarrow> Some (Inr acc)
          | Some q \<Rightarrow> if q = [] then Some (Inr acc)
              else (case map_of (parent c) q of None \<Rightarrow> Some (Inl (KeyError (Some q)))
                    | Some p' \<Rightarrow> loop c (acc @ [q]) p')) = Some r"
  show "\<not> (p = Some x \<and> x \<noteq> [] \<and> map_of (parent c) x = Some (Some x))"
  proof
    assume a: "p = Some x \<and> x \<noteq> [] \<and> map_of (parent c) x = Some (Some x)"
    with body have "loop c (acc @ [x]) (Some x) = Some r" by simp
    from IH [OF this] a show False by simp
  qed
qed

lemma ancestors_for_self_parent:
  assumes "map_of (parent c) x = Some (Some x)" and "x \<noteq> []"
  shows "ancestors_for c x = None"
proof (cases "ancestors_loop c [] (Some x)")
  case None
  with assms show ?thesis by (simp add: ancestors_for_def)
next
  case (Some r)
  from ancestors_loop_self_parent_aux [OF Some, of x] assms show ?thesis by simp
qed

lemmas query_defs = ancestors_for_def depth_for_def least_common_ancestor_def
  ancestors_loop.simps no_self_parent_def nonempty_names_def

text \<open>
  C7, as the code has it.  Let the chart be built by registrations that all returned, let
  no state be registered with itself as parent and let no state have the empty name.  Then
  for every registered state \<open>s\<close> the call \<open>ancestors_for(s)\<close> returns the chain of proper
  ancestors of \<open>s\<close>, nearest parent first: \<open>s\<close> is not in it, it is empty for the root and
  ends with the root for every other state, and \<open>depth_for(s)\<close> returns 1 plus its length
  (so 1 for the root).
\<close>

theorem ancestors_for_chain:
  assumes "build (StateChart_init nm r descr boot) calls = Inr c"
    and "no_self_parent c" and "nonempty_names c" and "registered c s"
  shows "\<exists>xs. ancestors_for c s = Some (Inr xs) \<and>
              parent_chain (map_of (parent c)) s xs \<and>
              s \<notin> set xs \<and>
              (s = root c \<longrightarrow> xs = []) \<and>
              (s \<noteq> root c \<longrightarrow> xs \<noteq> [] \<and> last xs = root c) \<and>
              depth_for c s = Some (Inr (1 + int (length xs)))"
proof -
  let ?par = "map_of (parent c)"
  from built_inv [OF assms(1)] have inv: "hierarchy_inv c" and ch: "chains_end c" by simp_all
  from inv have cl: "\<forall>n q. ?par n = Some (Some q) \<longrightarrow> ?par q \<noteq> None"
    and rt: "?par (root c) = Some None"
    and un: "\<forall>n. ?par n = Some None \<longrightarrow> n = root c"
    and dm: "dom ?par = dom (map_of (states c))"
    by (simp_all add: hierarchy_inv_def)
  from nonempty_names_map [OF assms(3)] dm have e: "?par [] = None"
    by (metis domIff)
  from ancestors_for_returns [OF inv ch assms(2,4)] obtain p xs where
    p: "?par s = Some p" and a: "ancestors_for c s = Some (Inr xs)"
    and lc: "loop_chain ?par p xs"
    by blast
  have pc: "parent_chain ?par s xs"
    by (rule loop_chain_parent_chain [OF p lc cl e])
  from p e have "s \<noteq> []" by auto
  with p lc have "loop_chain ?par (Some s) (s # xs)" by simp
  then have "distinct (s # xs)" by (rule loop_chain_distinct)
  then have notin: "s \<notin> set xs" by simp
  have root_case: "s = root c \<longrightarrow> xs = []"
  proof
    assume "s = root c"
    with rt p have "p = None" by simp
    with lc show "xs = []" by (cases xs) auto
  qed
  have other_case: "s \<noteq> root c \<longrightarrow> xs \<noteq> [] \<and> last xs = root c"
  proof
    assume ne: "s \<noteq> root c"
    have "xs \<noteq> []"
    proof
      assume "xs = []"
      with pc have "?par s = Some None" by simp
      with un ne show False by blast
    qed
    moreover from parent_chain_last [OF pc this] un have "last xs = root c" by blast
    ultimately show "xs \<noteq> [] \<and> last xs = root c" ..
  qed
  from a have d: "depth_for c s = Some (Inr (1 + int (length xs)))"
    by (simp add: depth_for_def)
  from a pc notin root_case other_case d show ?thesis by blast
qed

theorem ancestors_for_chain_witness:
  "no_self_parent (projr (build (StateChart_init ''sc'' example_root None None) example_calls)) \<and>
   nonempty_names (projr (build (StateChart_init ''sc'' example_root None None) example_calls)) \<and>
   registered (projr (build (StateChart_init ''sc'' example_root None None) example_calls)) ''A1'' \<and>
   ancestors_for (projr (build (StateChart_init ''sc'' example_root None None) example_calls)) ''A1''
     = Some (Inr [''A'', ''R'']) \<and>
   parent_chain
     (map_of (parent (projr (build (StateChart_init ''sc'' example_root None None) example_calls))))
     ''A1'' [''A'', ''R''] \<and>
   depth_for (projr (build (StateChart_init ''sc'' example_root None None) example_calls)) ''A1''
     = Some (Inr 3)"
proof -
  let ?c = "projr (build (StateChart_init ''sc'' example_root None None) example_calls)"
  have h1: "build (StateChart_init ''sc'' example_root None None) example_calls = Inr ?c"
    by (simp add: example_calls_def chart_defs reg_defs)
  have h2: "no_self_parent ?c"
    by (simp add: example_calls_def chart_defs reg_defs query_defs)
  have h3: "nonempty_names ?c"
    by (simp add: example_calls_def chart_defs reg_defs query_defs)
  have h4: "registered ?c ''A1''"
    by (simp add: example_calls_def chart_defs reg_defs)
  have v: "ancestors_for ?c ''A1'' = Some (Inr [''A'', ''R''])"
    by (simp add: example_calls_def chart_defs reg_defs query_defs)
  from ancestors_for_chain [OF h1 h2 h3 h4] obtain xs where
    "ancestors_for ?c ''A1'' = Some (Inr xs)" "parent_chain (map_of (parent ?c)) ''A1'' xs"
    "depth_for ?c ''A1'' = Some (Inr (1 + int (length xs)))"
    by blast
  with v have "parent_chain (map_of (parent ?c)) ''A1'' [''A'', ''R'']"
    "depth_for ?c ''A1'' = Some (Inr 3)"
    by simp_all
  with h2 h3 h4 v show ?thesis by simp
qed

text \<open>
  C7, as the claim states it, fails on built charts.  After the compound state \<open>X\<close> has
  been registered with itself as parent (the call returns), \<open>ancestors_for('X')\<close> never
  returns.  In the chart whose root has the empty name, the basic state \<open>A\<close> registered
  under the root has the root as parent, but the loop \<open>while parent:\<close> ends at once:
  \<open>ancestors_for('A')\<close> is empty and \<open>depth_for('A')\<close> is 1.
\<close>

theorem ancestors_for_chain_counterexample:
  "build (StateChart_init ''sc'' example_root None None)
     [RegisterState (CompoundState_init ''X'' None None None) (ParentName ''X'')] =
     Inr (projr (build (StateChart_init ''sc'' example_root None None)
       [RegisterState (CompoundState_init ''X'' None None None) (ParentName ''X'')])) \<and>
   registered (projr (build (StateChart_init ''sc'' example_root None None)
       [RegisterState (CompoundState_init ''X'' None None None) (ParentName ''X'')])) ''X'' \<and>
   ancestors_for (projr (build (StateChart_init ''sc'' example_root None None)
       [RegisterState (CompoundState_init ''X'' None None None) (ParentName ''X'')])) ''X'' = None \<and>
   build (StateChart_init ''sc'' (CompoundState_init [] None None None) None None)
     [RegisterState (BasicState_init ''A'' None None) (ParentName [])] =
     Inr (projr (build (StateChart_init ''sc'' (CompoundState_init [] None None None) None None)
       [RegisterState (BasicState_init ''A'' None None) (ParentName [])])) \<and>
   registered (projr (build (StateChart_init ''sc'' (CompoundState_init [] None None None) None None)
       [RegisterState (BasicState_init ''A'' None None) (ParentName [])])) ''A'' \<and>
   map_of (parent (projr (build (StateChart_init ''sc'' (CompoundState_init [] None None None) None None)
       [RegisterState (BasicState_init ''A'' None None) (ParentName [])]))) ''A'' = Some (Some []) \<and>
   ancestors_for (projr (build (StateChart_init ''sc'' (CompoundState_init [] None None None) None None)
       [RegisterState (BasicState_init ''A'' None None) (ParentName [])])) ''A'' = Some (Inr []) \<and>
   depth_for (projr (build (StateChart_init ''sc'' (CompoundState_init [] None None None) None None)
       [RegisterState (BasicState_init ''A'' None None) (ParentName [])])) ''A'' = Some (Inr 1)"
proof -
  let ?x = "projr (build (StateChart_init ''sc'' example_root None None)
       [RegisterState (CompoundState_init ''X'' None None None) (ParentName ''X'')])"
  let ?e = "projr (build (StateChart_init ''sc'' (CompoundState_init [] None None None) None None)
       [RegisterState (BasicState_init ''A'' None None) (ParentName [])])"
  have x1: "build (StateChart_init ''sc'' example_root None None)
     [RegisterState (CompoundState_init ''X'' None None None) (ParentName ''X'')] = Inr ?x"
    by (simp add: chart_defs reg_defs)
  have x2: "registered ?x ''X''"
    by (simp add: chart_defs reg_defs)
  have "map_of (parent ?x) ''X'' = Some (Some ''X'')"
    by (simp add: chart_defs reg_defs)
  then have x3: "ancestors_for ?x ''X'' = None"
    by (rule ancestors_for_self_parent) simp
  have e1: "build (StateChart_init ''sc'' (CompoundState_init [] None None None) None None)
     [RegisterState (BasicState_init ''A'' None None) (ParentName [])] = Inr ?e"
    by (simp add: chart_defs reg_defs)
  have e2: "registered ?e ''A''"
    by (simp add: chart_defs reg_defs)
  have e3: "map_of (parent ?e) ''A'' = Some (Some [])"
    by (simp add: chart_defs reg_defs)
  have e4: "ancestors_for ?e ''A'' = Some (Inr [])"
    by (simp add: chart_defs reg_defs query_defs)
  have e5: "depth_for ?e ''A'' = Some (Inr 1)"
    by (simp add: chart_defs reg_defs query_defs)
  from x1 x2 x3 e1 e2 e3 e4 e5 show ?thesis by blast
qed

text \<open>
  C9, as the code has it.  Under the same three conditions, for every registered state
  \<open>s\<close> other than the root, \<open>least_common_ancestor(s, s)\<close> returns the parent of \<open>s\<close>, which
  is not \<open>s\<close>; and \<open>least_common_ancestor(root, root)\<close> returns \<open>None\<close>.
\<close>

theorem least_common_ancestor_self:
  assumes "build (StateChart_init nm r descr boot) calls = Inr c"
    and "no_self_parent c" and "nonempty_names c" and "registered c s"
  shows "(s \<noteq> root c \<longrightarrow>
            (\<exists>p. map_of (parent c) s = Some (Some p) \<and> p \<noteq> s \<and>
                 least_common_ancestor c s s = Some (Inr (Some p)))) \<and>
         least_common_ancestor c (root c) (root c) = Some (Inr None)"
proof -
  let ?par = "map_of (parent c)"
  from built_inv [OF assms(1)] have inv: "hierarchy_inv c" and ch: "chains_end c" by simp_all
  from inv have rt: "?par (root c) = Some None"
    and un: "\<forall>n. ?par n = Some None \<longrightarrow> n = root c"
    and cl: "\<forall>n q. ?par n = Some (Some q) \<longrightarrow> ?par q \<noteq> None"
    and dm: "dom ?par = dom (map_of (states c))"
    by (simp_all add: hierarchy_inv_def)
  from nonempty_names_map [OF assms(3)] dm have e: "?par [] = None"
    by (metis domIff)
  have "ancestors_loop c [] None = Some (Inr [])"
    by (subst ancestors_loop.simps) simp
  with rt have "ancestors_for c (root c) = Some (Inr [])"
    by (simp add: ancestors_for_def)
  then have root_part: "least_common_ancestor c (root c) (root c) = Some (Inr None)"
    by (simp add: least_common_ancestor_def)
  have self_part: "s \<noteq> root c \<longrightarrow>
            (\<exists>p. ?par s = Some (Some p) \<and> p \<noteq> s \<and>
                 least_common_ancestor c s s = Some (Inr (Some p)))"
  proof
    assume ne: "s \<noteq> root c"
    from ancestors_for_returns [OF inv ch assms(2,4)] obtain p xs where
      p: "?par s = Some p" and a: "ancestors_for c s = Some (Inr xs)"
      and lc: "loop_chain ?par p xs"
      by blast
    from p un ne obtain q where q: "p = Some q" by (cases p) auto
    with p cl have "?par q \<noteq> None" by blast
    with e have "q \<noteq> []" by auto
    with q lc obtain ys where ys: "xs = q # ys" by (cases xs) auto
    from no_self_parent_map [OF assms(2), of s] p q have "q \<noteq> s" by auto
    moreover from a ys have "least_common_ancestor c s s = Some (Inr (Some q))"
      by (simp add: least_common_ancestor_def)
    ultimately show "\<exists>p. ?par s = Some (Some p) \<and> p \<noteq> s \<and>
                 least_common_ancestor c s s = Some (Inr (Some p))"
      using p q by blast
  qed
  from self_part root_part show ?thesis ..
qed

theorem least_common_ancestor_self_witness:
  "no_self_parent (projr (build (StateChart_init ''sc'' example_root None None) example_calls)) \<and>
   nonempty_names (projr (build (StateChart_init ''sc'' example_root None None) example_calls)) \<and>
   registered (projr (build (StateChart_init ''sc'' example_root None None) example_calls)) ''A1'' \<and>
   ''A1'' \<noteq> root (projr (build (StateChart_init ''sc'' example_root None None) example_calls)) \<and>
   map_of (parent (projr (build (StateChart_init ''sc'' example_root None None) example_calls)))
     ''A1'' = Some (Some ''A'') \<and>
   least_common_ancestor
     (projr (build (StateChart_init ''sc'' example_root None None) example_calls)) ''A1'' ''A1''
     = Some (Inr (Some ''A'')) \<and>
   least_common_ancestor
     (projr (build (StateChart_init ''sc'' example_root None None) example_calls)) ''R'' ''R''
     = Some (Inr None)"
proof -
  let ?c = "projr (build (StateChart_init ''sc'' example_root None None) example_calls)"
  have h1: "build (StateChart_init ''sc'' example_root None None) example_calls = Inr ?c"
    by (simp add: example_calls_def chart_defs reg_defs)
  have h2: "no_self_parent ?c"
    by (simp add: example_calls_def chart_defs reg_defs query_defs)
  have h3: "nonempty_names ?c"
    by (simp add: example_calls_def chart_defs reg_defs query_defs)
  have h4: "registered ?c ''A1''"
    by (simp add: example_calls_def chart_defs reg_defs)
  have r: "root ?c = ''R''"
    by (simp add: example_calls_def chart_defs reg_defs)
  have p: "map_of (parent ?c) ''A1'' = Some (Some ''A'')"
    by (simp add: example_calls_def chart_defs reg_defs)
  from r have ne: "''A1'' \<noteq> root ?c" by simp
  from least_common_ancestor_self [OF h1 h2 h3 h4] ne p r
  have "least_common_ancestor ?c ''A1'' ''A1'' = Some (Inr (Some ''A''))"
    and "least_common_ancestor ?c ''R'' ''R'' = Some (Inr None)"
    by auto
  with h2 h3 h4 ne p show ?thesis by blast
qed

text \<open>
  C9, as the claim states it, fails on built charts.  For the state \<open>X\<close> registered with
  itself as parent, \<open>least_common_ancestor('X', 'X')\<close> never returns; for the state \<open>A\<close>
  registered under the root of empty name it returns \<open>None\<close>, not the parent.
\<close>

theorem least_common_ancestor_self_counterexample:
  "build (StateChart_init ''sc'' example_root None None)
     [RegisterState (CompoundState_init ''X'' None None None) (ParentName ''X'')] =
     Inr (projr (build (StateChart_init ''sc'' example_root None None)
       [RegisterState (CompoundState_init ''X'' None None None) (ParentName ''X'')])) \<and>
   registered (projr (build (StateChart_init ''sc'' example_root None None)
       [RegisterState (CompoundState_init ''X'' None None None) (ParentName ''X'')])) ''X'' \<and>
   ''X'' \<noteq> root (projr (build (StateChart_init ''sc'' example_root None None)
       [RegisterState (CompoundState_init ''X'' None None None) (ParentName ''X'')])) \<and>
   least_common_ancestor (projr (build (StateChart_init ''sc'' example_root None None)
       [RegisterState (CompoundState_init ''X'' None None None) (ParentName ''X'')])) ''X'' ''X''
     = None \<and>
   build (StateChart_init ''sc'' (CompoundState_init [] None None None) None None)
     [RegisterState (BasicState_init ''A'' None None) (ParentName [])] =
     Inr (projr (build (StateChart_init ''sc'' (CompoundState_init [] None None None) None None)
       [RegisterState (BasicState_init ''A'' None None) (ParentName [])])) \<and>
   registered (projr (build (StateChart_init ''sc'' (CompoundState_init [] None None None) None None)
       [RegisterState (BasicState_init ''A'' None None) (ParentName [])])) ''A'' \<and>
   ''A'' \<noteq> root (projr (build (StateChart_init ''sc'' (CompoundState_init [] None None None) None None)
       [RegisterState (BasicState_init ''A'' None None) (ParentName [])])) \<and>
   map_of (parent (projr (build (StateChart_init ''sc'' (CompoundState_init [] None None None) None None)
       [RegisterState (BasicState_init ''A'' None None) (ParentName [])]))) ''A'' = Some (Some []) \<and>
   least_common_ancestor (projr (build (StateChart_init ''sc'' (CompoundState_init [] None None None) None None)
       [RegisterState (BasicState_init ''A'' None None) (ParentName [])])) ''A'' ''A''
     = Some (Inr None)"
proof -
  let ?x = "projr (build (StateChart_init ''sc'' example_root None None)
       [RegisterState (CompoundState_init ''X'' None None None) (ParentName ''X'')])"
  let ?e = "projr (build (StateChart_init ''sc'' (CompoundState_init [] None None None) None None)
       [RegisterState (BasicState_init ''A'' None None) (ParentName [])])"
  have x1: "build (StateChart_init ''sc'' example_root None None)
     [RegisterState (CompoundState_init ''X'' None None None) (ParentName ''X'')] = Inr ?x"
    by (simp add: chart_defs reg_defs)
  have x2: "registered ?x ''X''"
    by (simp add: chart_defs reg_defs)
  have x3: "''X'' \<noteq> root ?x"
    by (simp add: chart_defs reg_defs)
  have "map_of (parent ?x) ''X'' = Some (Some ''X'')"
    by (simp add: chart_defs reg_defs)
  then have "ancestors_for ?x ''X'' = None"
    by (rule ancestors_for_self_parent) simp
  then have x4: "least_common_ancestor ?x ''X'' ''X'' = None"
    by (simp add: least_common_ancestor_def)
  have e1: "build (StateChart_init ''sc'' (CompoundState_init [] None None None) None None)
     [RegisterState (BasicState_init ''A'' None None) (ParentName [])] = Inr ?e"
    by (simp add: chart_defs reg_defs)
  have e2: "registered ?e ''A''"
    by (simp add: chart_defs reg_defs)
  have e3: "''A'' \<noteq> root ?e"
    by (simp add: chart_defs reg_defs)
  have e4: "map_of (parent ?e) ''A'' = Some (Some [])"
    by (simp add: chart_defs reg_defs)
  have e5: "least_common_ancestor ?e ''A'' ''A'' = Some (Inr None)"
    by (simp add: chart_defs reg_defs query_defs)
  from x1 x2 x3 x4 e1 e2 e3 e4 e5 show ?thesis by blast
qed

text \<open>
  In a chart built by registrations that all returned, the two orders of the arguments
  have the same outcome for registered states: neither call raises, and they return
  together or not at all.
\<close>

lemma least_common_ancestor_same_outcome:
  assumes "build (StateChart_init nm r descr boot) calls = Inr c"
    and "registered c a" and "registered c b"
  shows "least_common_ancestor c a b = least_common_ancestor c b a \<and>
         (\<forall>e. least_common_ancestor c a b \<noteq> Some (Inl e)) \<and>
         (no_self_parent c \<longrightarrow> least_common_ancestor c a b \<noteq> None)"
proof -
  let ?par = "map_of (parent c)"
  from built_inv [OF assms(1)] have inv: "hierarchy_inv c" and ch: "chains_end c" by simp_all
  have returns: "no_self_parent c \<longrightarrow> least_common_ancestor c a b \<noteq> None"
  proof
    assume nsp: "no_self_parent c"
    from ancestors_for_returns [OF inv ch nsp assms(2)]
      ancestors_for_returns [OF inv ch nsp assms(3)]
    show "least_common_ancestor c a b \<noteq> None"
      by (auto simp: least_common_ancestor_def)
  qed
  have "least_common_ancestor c a b = least_common_ancestor c b a \<and>
         (\<forall>e. least_common_ancestor c a b \<noteq> Some (Inl e))"
  proof (cases "ancestors_for c a")
    case None
    note a = this
    show ?thesis
    proof (cases "ancestors_for c b")
      case None
      with a show ?thesis by (simp add: least_common_ancestor_def)
    next
      case (Some rb)
      with ancestors_for_cases [OF inv assms(3)] obtain ys
        where "ancestors_for c b = Some (Inr ys)" by auto
      with a show ?thesis by (simp add: least_common_ancestor_def)
    qed
  next
    case (Some ra)
    with ancestors_for_cases [OF inv assms(2)] obtain p xs
      where a: "ancestors_for c a = Some (Inr xs)" and lx: "loop_chain ?par p xs" by auto
    show ?thesis
    proof (cases "ancestors_for c b")
      case None
      with a show ?thesis by (simp add: least_common_ancestor_def)
    next
      case (Some rb)
      with ancestors_for_cases [OF inv assms(3)] obtain q ys
        where b: "ancestors_for c b = Some (Inr ys)" and ly: "loop_chain ?par q ys" by auto
      from loop_chain_find_sym [OF lx ly] a b show ?thesis
        by (simp add: least_common_ancestor_def)
    qed
  qed
  with returns show ?thesis by blast
qed

text \<open>
  C6, as the code has it.  In a chart built by registrations that all returned, in which
  no state is registered with itself as parent, for registered states \<open>a\<close> and \<open>b\<close> the
  calls \<open>least_common_ancestor(a, b)\<close> and \<open>least_common_ancestor(b, a)\<close> both return, and
  they return the same.
\<close>

theorem least_common_ancestor_symmetric:
  assumes "build (StateChart_init nm r descr boot) calls = Inr c"
    and "no_self_parent c" and "registered c a" and "registered c b"
  shows "\<exists>res. least_common_ancestor c a b = Some (Inr res) \<and>
               least_common_ancestor c b a = Some (Inr res)"
proof -
  note same = least_common_ancestor_same_outcome [OF assms(1,3,4)]
  from same have eq: "least_common_ancestor c a b = least_common_ancestor c b a"
    by (rule conjunct1)
  from same have noraise: "\<forall>e. least_common_ancestor c a b \<noteq> Some (Inl e)"
    by blast
  from same assms(2) have returns: "least_common_ancestor c a b \<noteq> None"
    by blast
  from returns obtain x where x: "least_common_ancestor c a b = Some x" by auto
  with noraise obtain res where "x = Inr res" by (cases x) auto
  with x eq show ?thesis by simp
qed

theorem least_common_ancestor_symmetric_witness:
  "no_self_parent (projr (build (StateChart_init ''sc'' example_root None None) example_calls)) \<and>
   registered (projr (build (StateChart_init ''sc'' example_root None None) example_calls)) ''A1'' \<and>
   registered (projr (build (StateChart_init ''sc'' example_root None None) example_calls)) ''B1'' \<and>
   least_common_ancestor
     (projr (build (StateChart_init ''sc'' example_root None None) example_calls)) ''A1'' ''B1''
     = Some (Inr (Some ''R'')) \<and>
   least_common_ancestor
     (projr (build (StateChart_init ''sc'' example_root None None) example_calls)) ''B1'' ''A1''
     = Some (Inr (Some ''R''))"
proof -
  let ?c = "projr (build (StateChart_init ''sc'' example_root None None) example_calls)"
  have h1: "build (StateChart_init ''sc'' example_root None None) example_calls = Inr ?c"
    by (simp add: example_calls_def chart_defs reg_defs)
  have h2: "no_self_parent ?c"
    by (simp add: example_calls_def chart_defs reg_defs query_defs)
  have h3: "registered ?c ''A1''" and h4: "registered ?c ''B1''"
    by (simp_all add: example_calls_def chart_defs reg_defs)
  have v: "least_common_ancestor ?c ''A1'' ''B1'' = Some (Inr (Some ''R''))"
    by (simp add: example_calls_def chart_defs reg_defs query_defs)
  from least_common_ancestor_symmetric [OF h1 h2 h3 h4] v
  have "least_common_ancestor ?c ''B1'' ''A1'' = Some (Inr (Some ''R''))" by auto
  with h2 h3 h4 v show ?thesis by blast
qed

text \<open>
  C6, as the claim states it, fails on built charts.  Register the basic state \<open>A\<close> under
  the root \<open>R\<close> and the compound state \<open>X\<close> with itself as parent: both calls return,
  and \<open>validate\<close> accepts the chart.  For the registered states \<open>X\<close> and \<open>A\<close> neither
  \<open>least_common_ancestor('X', 'A')\<close> nor \<open>least_common_ancestor('A', 'X')\<close> ever returns,
  so there are no two results to be equal.
\<close>

theorem least_common_ancestor_symmetric_counterexample:
  "build (StateChart_init ''sc'' example_root None None)
     [RegisterState (BasicState_init ''A'' None None) (ParentName ''R''),
      RegisterState (CompoundState_init ''X'' None None None) (ParentName ''X'')] =
     Inr (projr (build (StateChart_init ''sc'' example_root None None)
       [RegisterState (BasicState_init ''A'' None None) (ParentName ''R''),
        RegisterState (CompoundState_init ''X'' None None None) (ParentName ''X'')])) \<and>
   validate (projr (build (StateChart_init ''sc'' example_root None None)
       [RegisterState (BasicState_init ''A'' None None) (ParentName ''R''),
        RegisterState (CompoundState_init ''X'' None None None) (ParentName ''X'')])) = Inr True \<and>
   registered (projr (build (StateChart_init ''sc'' example_root None None)
       [RegisterState (BasicState_init ''A'' None None) (ParentName ''R''),
        RegisterState (CompoundState_init ''X'' None None None) (ParentName ''X'')])) ''X'' \<and>
   registered (projr (build (StateChart_init ''sc'' example_root None None)
       [RegisterState (BasicState_init ''A'' None None) (ParentName ''R''),
        RegisterState (CompoundState_init ''X'' None None None) (ParentName ''X'')])) ''A'' \<and>
   least_common_ancestor (projr (build (StateChart_init ''sc'' example_root None None)
       [RegisterState (BasicState_init ''A'' None None) (ParentName ''R''),
        RegisterState (CompoundState_init ''X'' None None None) (ParentName ''X'')])) ''X'' ''A''
     = None \<and>
   least_common_ancestor (projr (build (StateChart_init ''sc'' example_root None None)
       [RegisterState (BasicState_init ''A'' None None) (ParentName ''R''),
        RegisterState (CompoundState_init ''X'' None None None) (ParentName ''X'')])) ''A'' ''X''
     = None"
proof -
  let ?x = "projr (build (StateChart_init ''sc'' example_root None None)
       [RegisterState (BasicState_init ''A'' None None) (ParentName ''R''),
        RegisterState (CompoundState_init ''X'' None None None) (ParentName ''X'')])"
  have b: "build (StateChart_init ''sc'' example_root None None)
     [RegisterState (BasicState_init ''A'' None None) (ParentName ''R''),
      RegisterState (CompoundState_init ''X'' None None None) (ParentName ''X'')] = Inr ?x"
    by (simp add: chart_defs reg_defs)
  have v: "validate ?x = Inr True"
    by (simp add: chart_defs reg_defs validate_def rule_defs)
  have rx: "registered ?x ''X''" and ra: "registered ?x ''A''"
    by (simp_all add: chart_defs reg_defs)
  have "map_of (parent ?x) ''X'' = Some (Some ''X'')"
    by (simp add: chart_defs reg_defs)
  then have ax: "ancestors_for ?x ''X'' = None"
    by (rule ancestors_for_self_parent) simp
  have aa: "ancestors_for ?x ''A'' = Some (Inr [''R''])"
    by (simp add: chart_defs reg_defs query_defs)
  from ax have 1: "least_common_ancestor ?x ''X'' ''A'' = None"
    by (simp add: least_common_ancestor_def)
  from ax aa have 2: "least_common_ancestor ?x ''A'' ''X'' = None"
    by (simp add: least_common_ancestor_def)
  from b v rx ra 1 2 show ?thesis by blast
qed

end
